theory Spec2Isabelle
  imports Complex_Main "HOL-Library.Char_ord" "HOL-Library.List_Lexorder" "HOL-Library.Multiset"
begin

section \<open>Strings and numbers of the host language\<close>

text \<open>
  The corpus builder (the Node script of the repository that writes
  \<^verbatim>\<open>data/remember-this.json\<close>) works on JSON values fetched from a sports API. The
  embedding fixes these conventions:

  \<^item> a JavaScript string is a \<^typ>\<open>string\<close>; an absent, \<^verbatim>\<open>null\<close> or \<^verbatim>\<open>undefined\<close>
    field is \<^term>\<open>None\<close>, so that \<^verbatim>\<open>x || ''\<close> is \<^verbatim>\<open>case x of None \<Rightarrow> [] | Some s \<Rightarrow> s\<close>;
  \<^item> a JavaScript number is an exact rational (\<^typ>\<open>rat\<close>): rounding of doubles is not
    modelled; the one place where the script produces \<^verbatim>\<open>Infinity\<close> has a constructor of
    its own;
  \<^item> case conversion, trimming and digit classes act on ASCII.
\<close>

type_synonym num = rat

definition is_digit :: "char \<Rightarrow> bool" where
  "is_digit c = (c \<in> set ''0123456789'')"

definition digit_val :: "char \<Rightarrow> nat" where
  "digit_val c = (of_char c :: nat) - 48"

text \<open>The value of a digit string, most significant digit first.\<close>

definition digits_val :: "string \<Rightarrow> nat" where
  "digits_val ds = foldl (\<lambda>acc c. 10 * acc + digit_val c) 0 ds"

text \<open>\<^verbatim>\<open>Number(ds)\<close> on a digit string: the same value as a number.\<close>

definition digits_num :: "string \<Rightarrow> num" where
  "digits_num ds = foldl (\<lambda>acc c. 10 * acc + of_nat (digit_val c)) 0 ds"

text \<open>\<^verbatim>\<open>Number('0.' + ds)\<close>: the digit string read as a decimal fraction.\<close>

definition frac_val :: "string \<Rightarrow> num" where
  "frac_val ds = digits_num ds / (10 ^ length ds)"

definition lower_letters :: string where
  "lower_letters = ''abcdefghijklmnopqrstuvwxyz''"

definition upper_letters :: string where
  "upper_letters = ''ABCDEFGHIJKLMNOPQRSTUVWXYZ''"

definition upper_char :: "char \<Rightarrow> char" where
  "upper_char c = (case map_of (zip lower_letters upper_letters) c of Some u \<Rightarrow> u | None \<Rightarrow> c)"

definition lower_char :: "char \<Rightarrow> char" where
  "lower_char c = (case map_of (zip upper_letters lower_letters) c of Some l \<Rightarrow> l | None \<Rightarrow> c)"

definition toUpperCase :: "string \<Rightarrow> string" where
  "toUpperCase s = map upper_char s"

definition toLowerCase :: "string \<Rightarrow> string" where
  "toLowerCase s = map lower_char s"

definition is_space :: "char \<Rightarrow> bool" where
  "is_space c = (of_char c \<in> {9, 10, 11, 12, 13, 32 :: nat})"

definition trim :: "string \<Rightarrow> string" where
  "trim s = rev (dropWhile is_space (rev (dropWhile is_space s)))"

text \<open>\<^verbatim>\<open>x || ''\<close> on an optional string field.\<close>

definition or_empty :: "string option \<Rightarrow> string" where
  "or_empty v = (case v of None \<Rightarrow> [] | Some s \<Rightarrow> s)"

text \<open>\<^verbatim>\<open>Number(x || 0)\<close> on an optional numeric field.\<close>

definition or_zero :: "num option \<Rightarrow> num" where
  "or_zero v = (case v of None \<Rightarrow> 0 | Some n \<Rightarrow> n)"

fun starts_with :: "string \<Rightarrow> string \<Rightarrow> bool" where
  "starts_with s [] = True"
| "starts_with [] (p # ps) = False"
| "starts_with (c # cs) (p # ps) = (c = p \<and> starts_with cs ps)"

text \<open>\<^verbatim>\<open>s.includes(sub)\<close>, also the test of a regular expression that is a plain word.\<close>

fun str_includes :: "string \<Rightarrow> string \<Rightarrow> bool" where
  "str_includes [] sub = (sub = [])"
| "str_includes (c # cs) sub = (starts_with (c # cs) sub \<or> str_includes cs sub)"

section \<open>Stat parsing\<close>

text \<open>
  The token of \<^verbatim>\<open>/-?\d+(?:\.\d+)?/\<close> that starts at the head of the string, if one does:
  an optional minus sign, the longest run of digits, and a fraction when a dot is
  followed by a digit. The result is the value \<^verbatim>\<open>Number\<close> gives the token.
\<close>

definition unsigned_token :: "string \<Rightarrow> num option" where
  "unsigned_token s =
     (let ds = takeWhile is_digit s; r = dropWhile is_digit s in
      if ds = [] then None
      else (case r of
              c # r' \<Rightarrow>
                (if c = CHR ''.'' \<and> takeWhile is_digit r' \<noteq> []
                 then Some (digits_num ds + frac_val (takeWhile is_digit r'))
                 else Some (digits_num ds))
            | [] \<Rightarrow> Some (digits_num ds)))"

definition token_at :: "string \<Rightarrow> num option" where
  "token_at s =
     (case s of
        [] \<Rightarrow> None
      | c # cs \<Rightarrow>
          (if c = CHR ''-'' \<and> unsigned_token cs \<noteq> None
           then map_option uminus (unsigned_token cs)
           else unsigned_token s))"

text \<open>The leftmost match of the pattern anywhere in the string.\<close>

fun first_token :: "string \<Rightarrow> num option" where
  "first_token [] = None"
| "first_token (c # cs) =
     (case token_at (c # cs) of Some v \<Rightarrow> Some v | None \<Rightarrow> first_token cs)"

definition parseNumberFromStat :: "string option \<Rightarrow> num" where
  "parseNumberFromStat v =
     (case v of
        None \<Rightarrow> 0
      | Some s \<Rightarrow> (case first_token s of Some n \<Rightarrow> n | None \<Rightarrow> 0))"

text \<open>
  A whole string of the form \<^verbatim>\<open>\d+(?:\.\d+)?\<close> and its value; this is the anchored
  test \<^verbatim>\<open>/^\d+(?:\.\d+)?$/\<close> of \<^verbatim>\<open>parseMinutes\<close>.
\<close>

definition all_digits :: "string \<Rightarrow> bool" where
  "all_digits s = (s \<noteq> [] \<and> list_all is_digit s)"

definition decimal_literal :: "string \<Rightarrow> num option" where
  "decimal_literal s =
     (let ds = takeWhile is_digit s; r = dropWhile is_digit s in
      if ds = [] then None
      else (case r of
              [] \<Rightarrow> Some (digits_num ds)
            | c # fs \<Rightarrow>
                (if c = CHR ''.'' \<and> all_digits fs
                 then Some (digits_num ds + frac_val fs)
                 else None)))"

text \<open>
  The anchored clock pattern \<^verbatim>\<open>/^(\d+):(\d{1,2})(?:\.(\d+))?$/\<close>: the three groups of a
  match. The first group is the whole leading digit run (the colon must follow it), the second
  the whole digit run after the colon, which must have one or two digits, and what is left is
  empty or a dot and digits.
\<close>

definition match_colon_clock :: "string \<Rightarrow> (string \<times> string \<times> string option) option" where
  "match_colon_clock t =
     (let m = takeWhile is_digit t; r = dropWhile is_digit t in
      if m = [] then None
      else (case r of
              [] \<Rightarrow> None
            | c # r1 \<Rightarrow>
                (if c \<noteq> CHR '':'' then None
                 else (let s = takeWhile is_digit r1; f = dropWhile is_digit r1 in
                       if s = [] \<or> 2 < length s then None
                       else (case f of
                               [] \<Rightarrow> Some (m, s, None)
                             | e # d \<Rightarrow>
                                 (if e = CHR ''.'' \<and> all_digits d then Some (m, s, Some d)
                                  else None))))))"

text \<open>
  The pattern \<^verbatim>\<open>/^PT(?:(\d+)M)?(?:(\d+(?:\.\d+)?)S)?$/i\<close>. \<open>iso_seconds\<close> is the optional
  seconds group and the end of the string: \<open>Some None\<close> when the group is absent.
\<close>

definition iso_seconds :: "string \<Rightarrow> num option option" where
  "iso_seconds x =
     (if x = [] then Some None
      else if upper_char (last x) = CHR ''S''
      then (case decimal_literal (butlast x) of None \<Rightarrow> None | Some v \<Rightarrow> Some (Some v))
      else None)"

definition iso_minutes :: "string \<Rightarrow> (string \<times> string) option" where
  "iso_minutes r =
     (let d = takeWhile is_digit r; r1 = dropWhile is_digit r in
      if d = [] then None
      else (case r1 of
              [] \<Rightarrow> None
            | c # r2 \<Rightarrow> (if upper_char c = CHR ''M'' then Some (d, r2) else None)))"

definition match_iso :: "string \<Rightarrow> (string option \<times> num option) option" where
  "match_iso t =
     (if length t < 2 \<or> toUpperCase (take 2 t) \<noteq> ''PT'' then None
      else (let r = drop 2 t in
            (case (case iso_minutes r of
                     None \<Rightarrow> None
                   | Some (d, r2) \<Rightarrow> map_option (\<lambda>sec. (Some d, sec)) (iso_seconds r2)) of
               Some g \<Rightarrow> Some g
             | None \<Rightarrow> map_option (\<lambda>sec. (None, sec)) (iso_seconds r))))"

definition parseMinutes :: "string option \<Rightarrow> num" where
  "parseMinutes v =
     (let text = trim (or_empty v) in
      if text = [] then 0
      else (case decimal_literal text of
              Some n \<Rightarrow> n
            | None \<Rightarrow>
                (case match_colon_clock text of
                   Some (m, s, f) \<Rightarrow> digits_num m + digits_num s / 60
                 | None \<Rightarrow>
                     (case match_iso text of
                        Some (g1, g2) \<Rightarrow>
                          (case g1 of None \<Rightarrow> 0 | Some d \<Rightarrow> digits_num d)
                          + (case g2 of None \<Rightarrow> 0 | Some x \<Rightarrow> x) / 60
                      | None \<Rightarrow> parseNumberFromStat (Some text)))))"

text \<open>A play of the play-by-play: its text and the display value of its clock.\<close>

record play =
  play_text :: "string option"
  clock_displayValue :: "string option"

text \<open>
  The unanchored pattern \<^verbatim>\<open>/(\d):(\d{2})(?:\.(\d+))?/\<close>: the groups of the match that starts
  at the head of the string, and of the leftmost match.
\<close>

definition text_clock_at :: "string \<Rightarrow> (char \<times> string \<times> string option) option" where
  "text_clock_at s =
     (case s of
        a # b # c # d # r \<Rightarrow>
          (if is_digit a \<and> b = CHR '':'' \<and> is_digit c \<and> is_digit d
           then Some (a, [c, d],
                  (case r of
                     [] \<Rightarrow> None
                   | e # r' \<Rightarrow>
                       (if e = CHR ''.'' \<and> takeWhile is_digit r' \<noteq> []
                        then Some (takeWhile is_digit r') else None)))
           else None)
      | _ \<Rightarrow> None)"

fun first_text_clock :: "string \<Rightarrow> (char \<times> string \<times> string option) option" where
  "first_text_clock [] = None"
| "first_text_clock (c # cs) =
     (case text_clock_at (c # cs) of Some g \<Rightarrow> Some g | None \<Rightarrow> first_text_clock cs)"

datatype clock_seconds = Seconds num | PosInfinity

definition parseClockToSeconds :: "play \<Rightarrow> clock_seconds" where
  "parseClockToSeconds p =
     (let display = trim (or_empty (clock_displayValue p)) in
      (case match_colon_clock display of
         Some (m, s, f) \<Rightarrow>
           Seconds (digits_num m * 60 + digits_num s
                    + (case f of None \<Rightarrow> 0 | Some d \<Rightarrow> frac_val d))
       | None \<Rightarrow>
           (let text = toLowerCase (or_empty (play_text p)) in
            (case first_text_clock text of
               Some (a, s, f) \<Rightarrow>
                 Seconds (of_nat (digit_val a) * 60 + digits_num s
                          + (case f of None \<Rightarrow> 0 | Some d \<Rightarrow> frac_val d))
             | None \<Rightarrow> PosInfinity))))"

section \<open>Printing numbers\<close>

definition digit_char :: "nat \<Rightarrow> char" where
  "digit_char d = char_of (48 + d)"

fun string_of_nat :: "nat \<Rightarrow> string" where
  "string_of_nat n =
     (if n < 10 then [digit_char n] else string_of_nat (n div 10) @ [digit_char (n mod 10)])"

declare string_of_nat.simps [simp del]

definition string_of_int :: "int \<Rightarrow> string" where
  "string_of_int i = (if i < 0 then CHR ''-'' # string_of_nat (nat (- i)) else string_of_nat (nat i))"

text \<open>
  The digits after the decimal point of a fraction \<open>0 \<le> r < 1\<close>, at most as many as the fuel
  (a double prints at most 17 significant digits).
\<close>

fun frac_digits :: "nat \<Rightarrow> num \<Rightarrow> string" where
  "frac_digits 0 r = []"
| "frac_digits (Suc n) r =
     (if r = 0 then []
      else digit_char (nat \<lfloor>r * 10\<rfloor>) # frac_digits n (r * 10 - of_int \<lfloor>r * 10\<rfloor>))"

text \<open>
  A number inside a template literal (\<^verbatim>\<open>`${points} pts`\<close>): the decimal numeral of the exact
  value. Exponent notation of very large and very small doubles is not modelled.
\<close>

definition num_str :: "num \<Rightarrow> string" where
  "num_str q =
     (let a = \<bar>q\<bar>; i = \<lfloor>a\<rfloor>; r = a - of_int i in
      (if q < 0 then ''-'' else []) @ string_of_nat (nat i)
      @ (if r = 0 then [] else CHR ''.'' # frac_digits 17 r))"

text \<open>\<^verbatim>\<open>x.toFixed(1)\<close>: one digit after the point, a tie rounded away from zero.\<close>

definition toFixed1 :: "num \<Rightarrow> string" where
  "toFixed1 q =
     (let n = nat \<lfloor>\<bar>q\<bar> * 10 + 1 / 2\<rfloor> in
      (if q < 0 then ''-'' else []) @ string_of_nat (n div 10) @ CHR ''.'' # [digit_char (n mod 10)])"

text \<open>\<^verbatim>\<open>Math.round\<close>: the nearest integer, a tie rounded up.\<close>

definition math_round :: "num \<Rightarrow> int" where
  "math_round x = \<lfloor>x + 1 / 2\<rfloor>"

text \<open>
  \<^verbatim>\<open>Number(s)\<close> on a string, \<open>None\<close> for \<^verbatim>\<open>NaN\<close>: surrounding white space is dropped, the
  empty string is 0, and a signed decimal literal has its value. Exponents, radix prefixes and
  \<^verbatim>\<open>Infinity\<close> are not modelled (they read as \<^verbatim>\<open>NaN\<close> here).
\<close>

definition unsigned_number :: "string \<Rightarrow> num option" where
  "unsigned_number s =
     (let ds = takeWhile is_digit s; r = dropWhile is_digit s in
      (case r of
         [] \<Rightarrow> (if ds = [] then None else Some (digits_num ds))
       | c # fs \<Rightarrow>
           (if c = CHR ''.'' \<and> list_all is_digit fs \<and> (ds \<noteq> [] \<or> fs \<noteq> [])
            then Some (digits_num ds + frac_val fs)
            else None)))"

definition js_Number :: "string \<Rightarrow> num option" where
  "js_Number s =
     (case trim s of
        [] \<Rightarrow> Some 0
      | c # cs \<Rightarrow>
          (if c = CHR ''-'' then map_option uminus (unsigned_number cs)
           else if c = CHR ''+'' then unsigned_number cs
           else unsigned_number (c # cs)))"

section \<open>Season labels\<close>

text \<open>
  \<^verbatim>\<open>new Date(dateStr)\<close> read in UTC, as far as the season label needs it: the year and the
  month (1 to 12) of a string that starts with an ISO calendar date \<^verbatim>\<open>YYYY-MM-DD\<close>, the form
  the API sends (\<^verbatim>\<open>2024-05-27T00:00Z\<close>); \<open>None\<close> stands for an invalid date. Other date
  formats and time-zone offsets that would move the month are not modelled.
\<close>

definition utc_year_month :: "string \<Rightarrow> (nat \<times> nat) option" where
  "utc_year_month s =
     (let y = take 4 s; m = take 2 (drop 5 s); d = take 2 (drop 8 s) in
      if length s \<ge> 10 \<and> list_all is_digit y \<and> s ! 4 = CHR ''-'' \<and> list_all is_digit m
         \<and> s ! 7 = CHR ''-'' \<and> list_all is_digit d
         \<and> 1 \<le> digits_val m \<and> digits_val m \<le> 12 \<and> 1 \<le> digits_val d \<and> digits_val d \<le> 31
      then Some (digits_val y, digits_val m) else None)"

definition padStart2 :: "string \<Rightarrow> string" where
  "padStart2 s = replicate (2 - length s) CHR ''0'' @ s"

definition seasonLabelFromDate :: "string \<Rightarrow> string" where
  "seasonLabelFromDate dateStr =
     (case utc_year_month dateStr of
        None \<Rightarrow> ''NaN-NaN''
      | Some (year, month) \<Rightarrow>
          (let start = (if month \<ge> 7 then int year else int year - 1);
               end_part = padStart2 (string_of_nat (nat ((start + 1) mod 100)))
           in string_of_int start @ ''-'' @ end_part))"

section \<open>The game summary\<close>

text \<open>
  The parts of the fetched summary the script reads, typed. A field the script guards with
  \<^verbatim>\<open>|| ''\<close>, \<^verbatim>\<open>|| 0\<close> or \<^verbatim>\<open>|| []\<close> is an option or a list that may be empty; an
  object the script guards with \<^verbatim>\<open>|| {}\<close> is the record with every field absent. A chain
  such as \<^verbatim>\<open>competition.status.type.detail\<close> is one optional field. Members of arrays are
  objects (not \<^verbatim>\<open>null\<close>), text fields hold strings, and the numeric fields (scores, the
  season type, the win-probability samples) hold numbers.
\<close>

record logo =
  href :: "string option"
  rel :: "string list option"

record team =
  team_id :: "string option"
  team_abbreviation :: "string option"
  logos :: "logo list option"
  logo_url :: "string option"

record competitor =
  comp_team :: team
  score :: "num option"
  winner :: "bool option"
  comp_homeAway :: "string option"

record series_entry =
  series_type :: "string option"
  series_summary :: "string option"
  series_title :: "string option"
  series_description :: "string option"

record competition =
  competitors :: "competitor list"
  comp_date :: "string option"
  status_detail :: "string option"
  series :: "series_entry list"

record athlete_row =
  athlete_displayName :: "string option"
  athlete_id :: "string option"
  stats :: "string list"
  starter :: "bool option"

record stat_group =
  labels :: "string list"
  athletes :: "athlete_row list"

record player_block =
  block_team_id :: "string option"
  statistics :: "stat_group list"

record team_stat =
  stat_name :: "string option"
  stat_displayName :: "string option"
  stat_displayValue :: "string option"
  stat_value :: "string option"

record team_row =
  row_team_id :: "string option"
  row_statistics :: "team_stat list"

record wp_sample =
  homeWinPercentage :: "num option"
  homeScore :: "num option"
  awayScore :: "num option"

record summary =
  competitions :: "competition list"
  season_type :: "num option"
  boxscore_players :: "player_block list"
  boxscore_teams :: "team_row list"
  winprobability :: "wp_sample list"
  plays :: "play list"

definition PACERS_TEAM_ID :: string where
  "PACERS_TEAM_ID = ''11''"

definition START_SEASON :: num where
  "START_SEASON = 1995"

definition PACERS_LOGO_URL :: string where
  "PACERS_LOGO_URL = ''https://a.espncdn.com/i/teamlogos/nba/500/ind.png''"

definition TEAM_ID_BY_ABBR :: "(string \<times> string) list" where
  "TEAM_ID_BY_ABBR =
     [(''ATL'', ''1''), (''BOS'', ''2''), (''BKN'', ''17''), (''CHA'', ''30''), (''CHI'', ''4''),
      (''CLE'', ''5''), (''DAL'', ''6''), (''DEN'', ''7''), (''DET'', ''8''), (''GS'', ''9''),
      (''HOU'', ''10''), (''IND'', ''11''), (''LAC'', ''12''), (''LAL'', ''13''), (''MEM'', ''29''),
      (''MIA'', ''14''), (''MIL'', ''15''), (''MIN'', ''16''), (''NO'', ''3''), (''NY'', ''18''),
      (''OKC'', ''25''), (''ORL'', ''19''), (''PHI'', ''20''), (''PHX'', ''21''), (''POR'', ''22''),
      (''SAC'', ''23''), (''SA'', ''24''), (''TOR'', ''28''), (''UTA'', ''26''), (''WAS'', ''27'')]"

section \<open>Context extraction\<close>

record game_context =
  ctx_competition :: competition
  ctx_pacersComp :: competitor
  ctx_oppComp :: competitor
  ctx_pacersScore :: num
  ctx_oppScore :: num
  ctx_won :: bool
  ctx_homeAway :: string
  ctx_opponent :: string
  ctx_result :: string
  ctx_playoffs :: bool

definition empty_competition :: competition where
  "empty_competition = \<lparr>competitors = [], comp_date = None, status_detail = None, series = []\<rparr>"

text \<open>\<^verbatim>\<open>(summary.header.competitions || [])[0] || {}\<close>\<close>

definition first_competition :: "summary \<Rightarrow> competition" where
  "first_competition s = (case competitions s of [] \<Rightarrow> empty_competition | c # _ \<Rightarrow> c)"

definition competitor_id :: "competitor \<Rightarrow> string" where
  "competitor_id c = or_empty (team_id (comp_team c))"

definition collectPacersTeamContext :: "summary \<Rightarrow> game_context option" where
  "collectPacersTeamContext s =
     (let competition = first_competition s;
          comps = competitors competition in
      (case find (\<lambda>c. competitor_id c = PACERS_TEAM_ID) comps of
         None \<Rightarrow> None
       | Some pacersComp \<Rightarrow>
           (case find (\<lambda>c. competitor_id c \<noteq> PACERS_TEAM_ID) comps of
              None \<Rightarrow> None
            | Some oppComp \<Rightarrow>
                (let pacersScore = or_zero (score pacersComp);
                     oppScore = or_zero (score oppComp);
                     won = (winner pacersComp = Some True)
                 in Some \<lparr>
                      ctx_competition = competition,
                      ctx_pacersComp = pacersComp,
                      ctx_oppComp = oppComp,
                      ctx_pacersScore = pacersScore,
                      ctx_oppScore = oppScore,
                      ctx_won = won,
                      ctx_homeAway =
                        (if toUpperCase (or_empty (comp_homeAway pacersComp)) = ''HOME''
                         then ''HOME'' else ''AWAY''),
                      ctx_opponent =
                        toUpperCase (let a = or_empty (team_abbreviation (comp_team oppComp))
                                     in if a = [] then ''UNK'' else a),
                      ctx_result =
                        (if won then ''W'' else ''L'') @ '' '' @ num_str pacersScore
                        @ ''-'' @ num_str oppScore,
                      ctx_playoffs = (or_zero (season_type s) = 3)\<rparr>))))"

text \<open>
  \<^verbatim>\<open>statMapForAthlete\<close>: the assignments \<^verbatim>\<open>out[label] = stats[i]\<close> in index order; a later
  label overwrites an earlier one, and an index past the end of \<^verbatim>\<open>stats\<close> stores
  \<^verbatim>\<open>undefined\<close>.
\<close>

definition statMapForAthlete :: "athlete_row \<Rightarrow> string list \<Rightarrow> (string \<rightharpoonup> string)" where
  "statMapForAthlete row lbls =
     foldl (\<lambda>out i. out(toUpperCase (lbls ! i) :=
                        (if i < length (stats row) then Some (stats row ! i) else None)))
       Map.empty [0..<length lbls]"

section \<open>Entries\<close>

record entry =
  date :: string
  season :: string
  opponent :: string
  homeAway :: string
  result :: string
  playoffs :: bool
  player :: string
  stat_line :: string
  category :: string
  trauma :: bool
  trauma_level :: "string option"
  why :: string
  image_url :: string

record player_ref =
  player_name :: string
  player_id :: string

definition getOpponentLogo :: "game_context \<Rightarrow> string" where
  "getOpponentLogo ctx =
     (let oppTeam = comp_team (ctx_oppComp ctx);
          lgs = (case logos oppTeam of None \<Rightarrow> [] | Some l \<Rightarrow> l);
          defaultLogo = find (\<lambda>l. case rel l of None \<Rightarrow> False | Some r \<Rightarrow> ''default'' \<in> set r) lgs;
          bestLogo = (case defaultLogo of Some l \<Rightarrow> Some l
                      | None \<Rightarrow> (case lgs of [] \<Rightarrow> None | l # _ \<Rightarrow> Some l));
          bestHref = (case bestLogo of None \<Rightarrow> [] | Some l \<Rightarrow> or_empty (href l))
      in if bestHref \<noteq> [] then bestHref
         else if or_empty (logo_url oppTeam) \<noteq> [] then or_empty (logo_url oppTeam)
         else (let abbr = toUpperCase
                       (if or_empty (team_abbreviation oppTeam) \<noteq> [] then or_empty (team_abbreviation oppTeam)
                        else ctx_opponent ctx)
               in (case map_of TEAM_ID_BY_ABBR abbr of
                     Some i \<Rightarrow> ''https://a.espncdn.com/i/teamlogos/nba/500/'' @ toLowerCase abbr @ ''.png''
                   | None \<Rightarrow> PACERS_LOGO_URL)))"

definition createBaseEntry ::
  "game_context \<Rightarrow> summary \<Rightarrow> player_ref \<Rightarrow> string \<Rightarrow> string \<Rightarrow> string \<Rightarrow> entry" where
  "createBaseEntry ctx s p statLine cat reason =
     (let hasPlayerHeadshot = (player_id p \<noteq> [] \<and> player_id p \<noteq> ''0'');
          opponentLogo = getOpponentLogo ctx;
          d = (case competitions s of [] \<Rightarrow> [] | c # _ \<Rightarrow> or_empty (comp_date c))
      in \<lparr>date = take 10 d,
          season = seasonLabelFromDate d,
          opponent = ctx_opponent ctx,
          homeAway = ctx_homeAway ctx,
          result = ctx_result ctx,
          playoffs = ctx_playoffs ctx,
          player = (if player_name p \<noteq> [] then player_name p else ''Unknown''),
          stat_line = statLine,
          category = cat,
          trauma = False,
          trauma_level = None,
          why = reason,
          image_url =
            (if hasPlayerHeadshot
             then ''https://a.espncdn.com/i/headshots/nba/players/full/'' @ player_id p @ ''.png''
             else opponentLogo)\<rparr>)"

definition traumaify :: "entry \<Rightarrow> string \<Rightarrow> entry" where
  "traumaify e reason =
     e\<lparr>category := ''TRAUMA'', trauma := True, trauma_level := Some ''HIGH'', why := reason\<rparr>"

text \<open>
  \<^verbatim>\<open>getPacersPeakLead\<close>: the loop over the win-probability samples, the running maximum as
  the accumulator.
\<close>

definition peak_step :: "bool \<Rightarrow> num \<Rightarrow> wp_sample \<Rightarrow> num" where
  "peak_step pacersHome peak wp =
     (let homeWin = or_zero (homeWinPercentage wp);
          diff = or_zero (homeScore wp) - or_zero (awayScore wp);
          pacersEdge = (if pacersHome then diff else - diff);
          peak1 = (if pacersEdge > peak then pacersEdge else peak);
          impliedLead = (if pacersHome then of_int (math_round ((homeWin - 1 / 2) * 40))
                         else of_int (math_round (((1 - homeWin) - 1 / 2) * 40)))
      in if impliedLead > peak1 then impliedLead else peak1)"

definition getPacersPeakLead :: "summary \<Rightarrow> game_context \<Rightarrow> num" where
  "getPacersPeakLead s ctx =
     foldl (peak_step (toLowerCase (or_empty (comp_homeAway (ctx_pacersComp ctx))) = ''home''))
       0 (winprobability s)"

section \<open>The running averages and the player classifier\<close>

record avg_record =
  avg_games :: nat
  avg_points :: num

type_synonym store = "string \<rightharpoonup> avg_record"

text \<open>\<^verbatim>\<open>runningAverages[avgKey] || { games: 0, points: 0 }\<close>\<close>

definition lookup_avg :: "store \<Rightarrow> string \<Rightarrow> avg_record" where
  "lookup_avg runningAverages avgKey =
     (case runningAverages avgKey of None \<Rightarrow> \<lparr>avg_games = 0, avg_points = 0\<rparr> | Some a \<Rightarrow> a)"

definition preGameAverage :: "avg_record \<Rightarrow> num" where
  "preGameAverage avg = (if avg_games avg > 0 then avg_points avg / of_nat (avg_games avg) else 0)"

definition avgKey :: "string \<Rightarrow> string \<Rightarrow> string" where
  "avgKey seasonKey name = seasonKey @ '':'' @ name"

definition athlete_name :: "athlete_row \<Rightarrow> string" where
  "athlete_name row =
     (case athlete_displayName row of
        None \<Rightarrow> ''Unknown''
      | Some n \<Rightarrow> (if n = [] then ''Unknown'' else n))"

definition athlete_points :: "athlete_row \<Rightarrow> string list \<Rightarrow> num" where
  "athlete_points row lbls = parseNumberFromStat (statMapForAthlete row lbls ''PTS'')"

definition athlete_minutes :: "athlete_row \<Rightarrow> string list \<Rightarrow> num" where
  "athlete_minutes row lbls = parseMinutes (statMapForAthlete row lbls ''MIN'')"

text \<open>The chain that sets \<^verbatim>\<open>randomWhy\<close>; the empty string when no rule fires.\<close>

definition randomWhy :: "string \<Rightarrow> bool \<Rightarrow> num \<Rightarrow> num \<Rightarrow> avg_record \<Rightarrow> string" where
  "randomWhy name isBench pts minutes avg =
     (if isBench \<and> pts \<ge> 30
      then ''Bench detonation: '' @ name @ '' dropped '' @ num_str pts @ '' off the bench.''
      else if pts \<ge> 45
      then name @ '' went for '' @ num_str pts @ ''. Full orbital launch.''
      else if pts \<ge> 35 \<and> preGameAverage avg < 12 \<and> avg_games avg \<ge> 8
      then name @ '' averaged '' @ toFixed1 (preGameAverage avg) @ '' then exploded for ''
           @ num_str pts @ ''.''
      else if pts \<ge> 25 \<and> minutes > 0 \<and> minutes < 25
      then name @ '' scored '' @ num_str pts @ '' in '' @ toFixed1 minutes @ '' minutes.''
      else [])"

text \<open>The chain that sets \<^verbatim>\<open>chaosWhy\<close>.\<close>

definition chaosWhy :: "string \<Rightarrow> num \<Rightarrow> num \<Rightarrow> num \<Rightarrow> num \<Rightarrow> num \<Rightarrow> num \<Rightarrow> string" where
  "chaosWhy name pts rebounds assists turnovers steals blocks =
     (let tripleDoubleBuckets = length (filter (\<lambda>v. v \<ge> 10) [pts, rebounds, assists, steals, blocks])
      in if tripleDoubleBuckets \<ge> 3 \<and> turnovers \<ge> 7
         then name @ '' posted a triple-double and '' @ num_str turnovers
              @ '' turnovers. Maximum volatility.''
         else if turnovers \<ge> 10
         then name @ '' turned it over '' @ num_str turnovers
              @ '' times and somehow it was still a game.''
         else if steals \<ge> 6
         then name @ '' ripped '' @ num_str steals @ '' steals in one night.''
         else if blocks \<ge> 7
         then name @ '' rejected '' @ num_str blocks @ '' shots like a bouncer.''
         else if assists \<ge> 15 \<and> turnovers = 0
         then name @ '' posted '' @ num_str assists @ '' assists with 0 turnovers. Surgical control.''
         else [])"

text \<open>
  One pass of the loop over the athletes of \<^verbatim>\<open>detectPlayerMoments\<close>, in two parts. The
  first is everything between the read of \<^verbatim>\<open>runningAverages[avgKey]\<close> and the write: the
  events the pass pushes, given the record \<^verbatim>\<open>avg\<close> it has read. The second is the pass
  itself: it reads the record, pushes the events and writes the record back, updated with
  the points of the game. The state is the list of events pushed so far and the running
  averages, which the script mutates in place.
\<close>

definition athlete_events ::
  "game_context \<Rightarrow> summary \<Rightarrow> string list \<Rightarrow> athlete_row \<Rightarrow> avg_record \<Rightarrow> entry list" where
  "athlete_events ctx s lbls row avg =
     (let statMap = statMapForAthlete row lbls;
          name = athlete_name row;
          p = \<lparr>player_name = name,
               player_id = (if or_empty (athlete_id row) = [] then ''0'' else or_empty (athlete_id row))\<rparr>;
          pts = parseNumberFromStat (statMap ''PTS'');
          rebounds = parseNumberFromStat (statMap ''REB'');
          assists = parseNumberFromStat (statMap ''AST'');
          turnovers = parseNumberFromStat (statMap ''TO'');
          steals = parseNumberFromStat (statMap ''STL'');
          blocks = parseNumberFromStat (statMap ''BLK'');
          minutes = parseMinutes (statMap ''MIN'');
          isBench = (starter row = Some False);
          statLine = num_str pts @ '' pts, '' @ num_str rebounds @ '' reb, '' @ num_str assists
                     @ '' ast'';
          rw = randomWhy name isBench pts minutes avg;
          cw = chaosWhy name pts rebounds assists turnovers steals blocks
      in (if rw \<noteq> [] then [createBaseEntry ctx s p statLine ''RANDOM_EXPLOSION'' rw] else [])
         @ (if cw \<noteq> [] then [createBaseEntry ctx s p statLine ''CHAOS'' cw] else []))"

definition athlete_step ::
  "game_context \<Rightarrow> summary \<Rightarrow> string list \<Rightarrow> string \<Rightarrow> entry list \<times> store \<Rightarrow> athlete_row
   \<Rightarrow> entry list \<times> store" where
  "athlete_step ctx s lbls seasonKey state row =
     (let events = fst state; runningAverages = snd state;
          key = avgKey seasonKey (athlete_name row);
          avg = lookup_avg runningAverages key
      in (events @ athlete_events ctx s lbls row avg,
          runningAverages(key \<mapsto>
            \<lparr>avg_games = avg_games avg + 1,
             avg_points = avg_points avg + athlete_points row lbls\<rparr>)))"

definition empty_stat_group :: stat_group where
  "empty_stat_group = \<lparr>labels = [], athletes = []\<rparr>"

text \<open>The first statistics group of the team's block of the boxscore, if the block is there.\<close>

definition pacers_stat_group :: "summary \<Rightarrow> stat_group option" where
  "pacers_stat_group s =
     (case find (\<lambda>b. or_empty (block_team_id b) = PACERS_TEAM_ID) (boxscore_players s) of
        None \<Rightarrow> None
      | Some pacersPlayerBlock \<Rightarrow>
          Some (case statistics pacersPlayerBlock of [] \<Rightarrow> empty_stat_group | g # _ \<Rightarrow> g))"

definition detectPlayerMoments ::
  "summary \<Rightarrow> game_context \<Rightarrow> store \<Rightarrow> string \<Rightarrow> entry list \<times> store" where
  "detectPlayerMoments s ctx runningAverages seasonKey =
     (case pacers_stat_group s of
        None \<Rightarrow> ([], runningAverages)
      | Some statGroup \<Rightarrow>
          foldl (athlete_step ctx s (map toUpperCase (labels statGroup)) seasonKey)
            ([], runningAverages) (athletes statGroup))"

section \<open>The team classifier\<close>

record team_stats =
  fgPct :: num
  ts_pacersScore :: num
  ts_oppScore :: num
  ts_won :: bool

definition findStat :: "team_row \<Rightarrow> string \<Rightarrow> string" where
  "findStat row key =
     (case find (\<lambda>item. toUpperCase (or_empty (stat_name item)) = key
                        \<or> toUpperCase (or_empty (stat_displayName item)) = key)
             (row_statistics row) of
        None \<Rightarrow> []
      | Some stat \<Rightarrow>
          (if or_empty (stat_displayValue stat) \<noteq> [] then or_empty (stat_displayValue stat)
           else or_empty (stat_value stat)))"

definition parseTeamStats :: "summary \<Rightarrow> game_context \<Rightarrow> team_stats" where
  "parseTeamStats s ctx =
     (let pacersRow =
            (case find (\<lambda>row. or_empty (row_team_id row) = PACERS_TEAM_ID) (boxscore_teams s) of
               None \<Rightarrow> \<lparr>row_team_id = None, row_statistics = []\<rparr>
             | Some row \<Rightarrow> row);
          a = parseNumberFromStat (Some (findStat pacersRow ''FIELD GOAL PCT''))
      in \<lparr>fgPct = (if a \<noteq> 0 then a else parseNumberFromStat (Some (findStat pacersRow ''FG%''))),
          ts_pacersScore = ctx_pacersScore ctx,
          ts_oppScore = ctx_oppScore ctx,
          ts_won = ctx_won ctx\<rparr>)"

definition team_event :: player_ref where
  "team_event = \<lparr>player_name = ''Team Event'', player_id = ''0''\<rparr>"

definition team_stat_line :: "game_context \<Rightarrow> string" where
  "team_stat_line ctx =
     num_str (ctx_pacersScore ctx) @ '' pts, opp '' @ num_str (ctx_oppScore ctx) @ '' pts''"

definition detectTeamWeirdness :: "summary \<Rightarrow> game_context \<Rightarrow> entry list" where
  "detectTeamWeirdness s ctx =
     (let tm = parseTeamStats s ctx;
          statLine = team_stat_line ctx;
          mk = createBaseEntry ctx s team_event statLine ''TEAM_WEIRDNESS'';
          items1 = (if ts_won tm \<and> fgPct tm > 0 \<and> fgPct tm < 35
                    then [mk (''Pacers won while shooting '' @ toFixed1 (fgPct tm)
                              @ ''%. Basketball is fake.'')]
                    else []);
          items2 = (if \<not> ts_won tm \<and> ts_pacersScore tm \<ge> 130
                    then items1 @ [mk ''Dropped 130+ and still lost. Defense dissolved completely.'']
                    else items1);
          items3 = (if ts_oppScore tm \<ge> 150
                    then items2 @ [mk ''Allowed 150+. Historical nonsense occurred.'']
                    else items2);
          pacersPeakLead = getPacersPeakLead s ctx;
          items4 = (if \<not> ts_won tm \<and> pacersPeakLead \<ge> 20
                    then items3 @ [mk (''Blew a '' @ string_of_int (math_round pacersPeakLead)
                                       @ ''-point lead.'')]
                    else items3);
          detail = toLowerCase (or_empty (status_detail (ctx_competition ctx)));
          margin = \<bar>ts_pacersScore tm - ts_oppScore tm\<bar>
      in if \<not> ts_won tm \<and> str_includes detail ''ot'' \<and> (margin = 1 \<or> margin = 2)
         then items4 @ [mk (''Overtime loss by '' @ num_str margin @ ''. Painfully precise.'')]
         else items4)"

section \<open>The trauma classifier\<close>

definition clock_gt :: "clock_seconds \<Rightarrow> num \<Rightarrow> bool" where
  "clock_gt c x = (case c of PosInfinity \<Rightarrow> True | Seconds v \<Rightarrow> v > x)"

text \<open>The predicate of \<^verbatim>\<open>plays.some\<close>.\<close>

definition late_opponent_make :: "play \<Rightarrow> bool" where
  "late_opponent_make p =
     (let text = toLowerCase (or_empty (play_text p)) in
      if \<not> (str_includes text ''makes'' \<or> str_includes text ''made''
             \<or> str_includes text ''hits'' \<or> str_includes text ''hit'')
      then False
      else if clock_gt (parseClockToSeconds p) 3 then False
      else (if str_includes text ''pacers'' then False else True))"

definition empty_series :: series_entry where
  "empty_series =
     \<lparr>series_type = None, series_summary = None, series_title = None, series_description = None\<rparr>"

text \<open>
  The conditions of the six pushes onto \<^verbatim>\<open>traumaReasons\<close>, in the order of the source, each
  with the reason it pushes.
\<close>

definition playoff_series :: "game_context \<Rightarrow> series_entry" where
  "playoff_series ctx =
     (case find (\<lambda>e. toLowerCase (or_empty (series_type e)) = ''playoff'')
             (series (ctx_competition ctx)) of
        None \<Rightarrow> empty_series | Some e \<Rightarrow> e)"

definition elimination_rule :: "game_context \<Rightarrow> bool" where
  "elimination_rule ctx =
     (let summaryText = toUpperCase (or_empty (series_summary (playoff_series ctx)))
      in ctx_playoffs ctx \<and> str_includes summaryText ''WINS SERIES''
         \<and> \<not> str_includes summaryText ''IND'')"

definition game7_rule :: "game_context \<Rightarrow> bool" where
  "game7_rule ctx =
     (let detailUpper = toUpperCase (or_empty (status_detail (ctx_competition ctx)))
      in ctx_playoffs ctx \<and> str_includes detailUpper ''GAME 7'')"

definition finals_rule :: "game_context \<Rightarrow> bool" where
  "finals_rule ctx =
     (let seriesTitle = toUpperCase (or_empty (series_title (playoff_series ctx)) @ '' ''
                                     @ or_empty (series_description (playoff_series ctx)))
      in ctx_playoffs ctx \<and> (str_includes seriesTitle ''CONFERENCE FINALS''
                               \<or> str_includes seriesTitle ''NBA FINALS''))"

definition rival_rule :: "game_context \<Rightarrow> bool" where
  "rival_rule ctx = (ctx_playoffs ctx \<and> ctx_opponent ctx \<in> set [''NY'', ''MIA''])"

definition blown_lead_rule :: "summary \<Rightarrow> game_context \<Rightarrow> bool" where
  "blown_lead_rule s ctx = (getPacersPeakLead s ctx \<ge> 20)"

definition buzzer_rule :: "summary \<Rightarrow> bool" where
  "buzzer_rule s = list_ex late_opponent_make (plays s)"

definition elimination_reason :: string where
  "elimination_reason = ''Playoff elimination confirmed. Remote tossed.''"

definition game7_reason :: string where
  "game7_reason = ''Game 7 loss. Historic pain tier unlocked.''"

definition finals_reason :: string where
  "finals_reason = ''ECF/Finals loss. Banner-adjacent heartbreak.''"

definition rival_reason :: "game_context \<Rightarrow> string" where
  "rival_reason ctx = ctx_opponent ctx @ '' playoff loss. Annual emotional tax paid.''"

definition blown_lead_reason :: "summary \<Rightarrow> game_context \<Rightarrow> string" where
  "blown_lead_reason s ctx =
     ''Led by '' @ string_of_int (math_round (getPacersPeakLead s ctx))
     @ '' and still lost. Hope briefly existed.''"

definition buzzer_reason :: string where
  "buzzer_reason = ''Buzzer-beater loss in the final 3 seconds.''"

definition traumaReasons :: "summary \<Rightarrow> game_context \<Rightarrow> string list" where
  "traumaReasons s ctx =
     (if elimination_rule ctx then [elimination_reason] else [])
     @ (if game7_rule ctx then [game7_reason] else [])
     @ (if finals_rule ctx then [finals_reason] else [])
     @ (if rival_rule ctx then [rival_reason ctx] else [])
     @ (if blown_lead_rule s ctx then [blown_lead_reason s ctx] else [])
     @ (if buzzer_rule s then [buzzer_reason] else [])"

text \<open>\<^verbatim>\<open>detectTrauma\<close>: nothing on a win, else the first of the reasons, if there is one.\<close>

definition trauma_base :: "summary \<Rightarrow> game_context \<Rightarrow> entry" where
  "trauma_base s ctx =
     createBaseEntry ctx s team_event (team_stat_line ctx) ''TRAUMA'' ''Hope briefly existed.''"

definition detectTrauma :: "summary \<Rightarrow> game_context \<Rightarrow> entry list" where
  "detectTrauma s ctx =
     (if ctx_won ctx then []
      else (case traumaReasons s ctx of
              [] \<Rightarrow> []
            | r # _ \<Rightarrow> [traumaify (trauma_base s ctx) r]))"

section \<open>The curator\<close>

text \<open>\<^verbatim>\<open>[a, b, ...].join('|')\<close>\<close>

fun join_bar :: "string list \<Rightarrow> string" where
  "join_bar [] = []"
| "join_bar [x] = x"
| "join_bar (x # y # ys) = x @ ''|'' @ join_bar (y # ys)"

definition entry_key :: "entry \<Rightarrow> string" where
  "entry_key e = join_bar [date e, opponent e, player e, category e, why e]"

text \<open>The loop of \<^verbatim>\<open>dedupeEntries\<close>, the set \<^verbatim>\<open>seen\<close> as its state.\<close>

fun dedupe_loop :: "entry list \<Rightarrow> string set \<Rightarrow> entry list" where
  "dedupe_loop [] seen = []"
| "dedupe_loop (e # es) seen =
     (if entry_key e \<in> seen then dedupe_loop es seen
      else e # dedupe_loop es (insert (entry_key e) seen))"

definition dedupeEntries :: "entry list \<Rightarrow> entry list" where
  "dedupeEntries entries = dedupe_loop entries {}"

text \<open>\<^verbatim>\<open>s.split(sep)[0]\<close>: what comes before the first occurrence of the separator.\<close>

fun before_first :: "string \<Rightarrow> string \<Rightarrow> string" where
  "before_first [] sep = []"
| "before_first (c # cs) sep =
     (if starts_with (c # cs) sep then [] else c # before_first cs sep)"

definition stat_line_points :: "entry \<Rightarrow> num" where
  "stat_line_points e = parseNumberFromStat (Some (before_first (stat_line e) '' pts''))"

definition entryQualityScore :: "entry \<Rightarrow> num" where
  "entryQualityScore e =
     (let score0 = (if trauma e then 100 else 0);
          score1 = (if category e = ''RANDOM_EXPLOSION'' \<or> category e = ''CHAOS''
                    then score0 + 25 else score0)
      in score1 + min (stat_line_points e) 60)"

text \<open>
  \<^verbatim>\<open>a.localeCompare(b)\<close> on dates. The dates of entries are ISO calendar dates, digits and
  hyphens, on which the collation of the host agrees with the lexicographic order of the
  characters; that order is the model.
\<close>

definition localeCompare :: "string \<Rightarrow> string \<Rightarrow> num" where
  "localeCompare a b = (if a < b then - 1 else if a = b then 0 else 1)"

text \<open>
  \<^verbatim>\<open>Array.prototype.sort\<close> with a comparator. The sort of the language is stable, so with a
  consistent comparator its result is determined; here it is computed by insertion, each
  element placed before the first one that it does not follow.
\<close>

fun insert_sorted :: "('a \<Rightarrow> 'a \<Rightarrow> num) \<Rightarrow> 'a \<Rightarrow> 'a list \<Rightarrow> 'a list" where
  "insert_sorted cmp x [] = [x]"
| "insert_sorted cmp x (y # ys) =
     (if cmp x y \<le> 0 then x # y # ys else y # insert_sorted cmp x ys)"

definition js_sort :: "('a \<Rightarrow> 'a \<Rightarrow> num) \<Rightarrow> 'a list \<Rightarrow> 'a list" where
  "js_sort cmp xs = foldr (insert_sorted cmp) xs []"

text \<open>The two comparators of \<^verbatim>\<open>main\<close>.\<close>

definition by_date_desc :: "entry \<Rightarrow> entry \<Rightarrow> num" where
  "by_date_desc a b = localeCompare (date b) (date a)"

definition by_quality :: "entry \<Rightarrow> entry \<Rightarrow> num" where
  "by_quality a b =
     (let d = entryQualityScore b - entryQualityScore a
      in if d \<noteq> 0 then d else localeCompare (date b) (date a))"

definition CORPUS_CAP :: nat where
  "CORPUS_CAP = 400"

text \<open>The end of \<^verbatim>\<open>main\<close>: from the collected candidates to the entries written.\<close>

definition finalEntries :: "entry list \<Rightarrow> entry list" where
  "finalEntries collected =
     (let sorted_all = js_sort by_date_desc (dedupeEntries collected)
      in if length sorted_all > CORPUS_CAP
         then js_sort by_date_desc (take CORPUS_CAP (js_sort by_quality sorted_all))
         else sorted_all)"

section \<open>The traversal\<close>

text \<open>
  One pass of the loop of \<^verbatim>\<open>main\<close> over the ordered event ids. The input is what the fetch
  of the event gave: \<open>None\<close> when it threw after its retries, which the \<^verbatim>\<open>catch\<close> of the loop
  turns into a skip. On a summary of the types above no step of the classifiers throws, so
  the \<^verbatim>\<open>catch\<close> is reached from the fetch only. The state is the running averages and the
  collected entries. The pacing delays and the progress log have no part in the result.
\<close>

definition number_lt :: "num option \<Rightarrow> num \<Rightarrow> bool" where
  "number_lt a b = (case a of None \<Rightarrow> False | Some x \<Rightarrow> x < b)"

definition process_event :: "store \<times> entry list \<Rightarrow> summary option \<Rightarrow> store \<times> entry list" where
  "process_event state fetched =
     (let runningAverages = fst state; collected = snd state in
      (case fetched of
         None \<Rightarrow> state
       | Some s \<Rightarrow>
           (case collectPacersTeamContext s of
              None \<Rightarrow> state
            | Some ctx \<Rightarrow>
                (let gameDate = take 10 (or_empty (comp_date (ctx_competition ctx))) in
                 if gameDate = [] \<or> number_lt (js_Number (take 4 gameDate)) START_SEASON
                 then state
                 else (let seasonKey = seasonLabelFromDate (or_empty (comp_date (ctx_competition ctx)));
                           pm = detectPlayerMoments s ctx runningAverages seasonKey
                       in (snd pm,
                           collected @ fst pm @ detectTeamWeirdness s ctx @ detectTrauma s ctx))))))"

definition traverse :: "summary option list \<Rightarrow> store \<times> entry list" where
  "traverse fetched = foldl process_event (Map.empty, []) fetched"

definition main :: "summary option list \<Rightarrow> entry list" where
  "main fetched = finalEntries (snd (traverse fetched))"

section \<open>Notions used to state the properties\<close>

text \<open>
  The first matching reason in the priority order elimination, Game 7, conference finals or
  finals, rival, blown lead, buzzer beater: the reading of the trauma classifier as a chain
  of rules, to be compared with the list of pushes of the source.
\<close>

definition first_trauma_reason :: "summary \<Rightarrow> game_context \<Rightarrow> string option" where
  "first_trauma_reason s ctx =
     (if elimination_rule ctx then Some elimination_reason
      else if game7_rule ctx then Some game7_reason
      else if finals_rule ctx then Some finals_reason
      else if rival_rule ctx then Some (rival_reason ctx)
      else if blown_lead_rule s ctx then Some (blown_lead_reason s ctx)
      else if buzzer_rule s then Some buzzer_reason
      else None)"


text \<open>A list of entries in descending order of date: no later entry has a greater date.\<close>

definition date_descending :: "entry list \<Rightarrow> bool" where
  "date_descending xs = sorted_wrt (\<lambda>a b. date a \<ge> date b) xs"

text \<open>The shape of an entry: the trauma flag, the category and the trauma level agree.\<close>

definition entry_shape :: "entry \<Rightarrow> bool" where
  "entry_shape e =
     ((trauma e \<longleftrightarrow> category e = ''TRAUMA'') \<and> (trauma_level e \<noteq> None \<longleftrightarrow> trauma e))"

text \<open>The entry of the team classifier for a win while shooting badly.\<close>

definition bad_shooting_entry :: "summary \<Rightarrow> game_context \<Rightarrow> entry" where
  "bad_shooting_entry s ctx =
     createBaseEntry ctx s team_event (team_stat_line ctx) ''TEAM_WEIRDNESS''
       (''Pacers won while shooting '' @ toFixed1 (fgPct (parseTeamStats s ctx))
        @ ''%. Basketball is fake.'')"

text \<open>The reason of the fourth explosion rule, for a row of the boxscore.\<close>

definition eruption_why :: "athlete_row \<Rightarrow> string list \<Rightarrow> string" where
  "eruption_why row lbls =
     athlete_name row @ '' scored '' @ num_str (athlete_points row lbls) @ '' in ''
     @ toFixed1 (athlete_minutes row lbls) @ '' minutes.''"

text \<open>
  The game a pass of the traversal classifies, with its context and its season key: the fetch
  succeeded, the context is resolved and the date passes the gate of \<^verbatim>\<open>main\<close>.
\<close>

definition processed_game :: "summary option \<Rightarrow> (summary \<times> game_context \<times> string) option" where
  "processed_game fetched =
     (case fetched of
        None \<Rightarrow> None
      | Some s \<Rightarrow>
          (case collectPacersTeamContext s of
             None \<Rightarrow> None
           | Some ctx \<Rightarrow>
               (let gameDate = take 10 (or_empty (comp_date (ctx_competition ctx))) in
                if gameDate = [] \<or> number_lt (js_Number (take 4 gameDate)) START_SEASON then None
                else Some (s, ctx, seasonLabelFromDate (or_empty (comp_date (ctx_competition ctx)))))))"

text \<open>
  The athlete rows of a processed game, in the order of the boxscore, each as the season key,
  the name of the player and the points of the game.
\<close>

definition game_rows :: "summary option \<Rightarrow> (string \<times> string \<times> num) list" where
  "game_rows fetched =
     (case processed_game fetched of
        None \<Rightarrow> []
      | Some (s, ctx, k) \<Rightarrow>
          (case pacers_stat_group s of
             None \<Rightarrow> []
           | Some g \<Rightarrow>
               map (\<lambda>row. (k, athlete_name row, athlete_points row (map toUpperCase (labels g))))
                 (athletes g)))"

text \<open>No two athlete rows of the game have the same player name.\<close>

definition distinct_names :: "summary option \<Rightarrow> bool" where
  "distinct_names f = distinct (map (\<lambda>r. fst (snd r)) (game_rows f))"

text \<open>
  The player has a row in the game, in that season; the points of the player in the game;
  and the record of the games of a sequence in which the player has a row: their count and
  the sum of the points, no record when there is no such game.
\<close>

definition played_in :: "string \<Rightarrow> string \<Rightarrow> summary option \<Rightarrow> bool" where
  "played_in ssn name f = ((ssn, name) \<in> set (map (\<lambda>r. (fst r, fst (snd r))) (game_rows f)))"

definition points_in :: "string \<Rightarrow> string \<Rightarrow> summary option \<Rightarrow> num" where
  "points_in ssn name f =
     sum_list (map (\<lambda>r. snd (snd r)) (filter (\<lambda>r. fst r = ssn \<and> fst (snd r) = name) (game_rows f)))"

definition season_record :: "string \<Rightarrow> string \<Rightarrow> summary option list \<Rightarrow> avg_record option" where
  "season_record ssn name fetched =
     (let gs = filter (played_in ssn name) fetched
      in if gs = [] then None
         else Some \<lparr>avg_games = length gs, avg_points = sum_list (map (points_in ssn name) gs)\<rparr>)"

definition record_or_zero :: "avg_record option \<Rightarrow> avg_record" where
  "record_or_zero r = (case r of None \<Rightarrow> \<lparr>avg_games = 0, avg_points = 0\<rparr> | Some a \<Rightarrow> a)"

text \<open>
  The write at the end of a pass of the loop over the athletes, on a key and the points.
\<close>

definition record_game :: "store \<Rightarrow> string \<times> num \<Rightarrow> store" where
  "record_game st kp =
     st(fst kp \<mapsto> \<lparr>avg_games = avg_games (lookup_avg st (fst kp)) + 1,
                    avg_points = avg_points (lookup_avg st (fst kp)) + snd kp\<rparr>)"

definition key_points :: "string \<times> string \<times> num \<Rightarrow> string \<times> num" where
  "key_points r = (avgKey (fst r) (fst (snd r)), snd (snd r))"

section \<open>Clock patterns\<close>

text \<open>
  What it means for a string to have the form of the two clock patterns of
  \<^verbatim>\<open>parseClockToSeconds\<close>, stated on the shape of the string: the anchored
  \<^verbatim>\<open>/^(\d+):(\d{1,2})(?:\.(\d+))?$/\<close> of the display value, and an occurrence of
  \<^verbatim>\<open>/(\d):(\d{2})(?:\.(\d+))?/\<close> in the text.
\<close>

definition colon_clock_pattern :: "string \<Rightarrow> bool" where
  "colon_clock_pattern t \<longleftrightarrow>
     (\<exists>m s f. t = m @ CHR '':'' # s @ f \<and> m \<noteq> [] \<and> list_all is_digit m
        \<and> s \<noteq> [] \<and> length s \<le> 2 \<and> list_all is_digit s
        \<and> (f = [] \<or> (\<exists>d. f = CHR ''.'' # d \<and> d \<noteq> [] \<and> list_all is_digit d)))"

definition text_clock_pattern :: "string \<Rightarrow> bool" where
  "text_clock_pattern t \<longleftrightarrow>
     (\<exists>p a c d q. t = p @ [a, CHR '':'', c, d] @ q \<and> is_digit a \<and> is_digit c \<and> is_digit d)"

section \<open>Example games and entries\<close>

text \<open>
  Small inputs on which the properties below are instantiated: a game of the team against
  Boston with the scores 98 and 101, whose winner flag, status detail and series summary
  vary, with a few boxscores; and entries that differ in date, stat line and trauma flag.
\<close>

definition ex_team :: "string \<Rightarrow> string \<Rightarrow> team" where
  "ex_team i a = \<lparr>team_id = Some i, team_abbreviation = Some a, logos = None, logo_url = None\<rparr>"

definition ex_competitor :: "string \<Rightarrow> string \<Rightarrow> num \<Rightarrow> bool \<Rightarrow> string \<Rightarrow> competitor" where
  "ex_competitor i a sc w ha =
     \<lparr>comp_team = ex_team i a, score = Some sc, winner = Some w, comp_homeAway = Some ha\<rparr>"

definition ex_competition :: "bool \<Rightarrow> string \<Rightarrow> string option \<Rightarrow> competition" where
  "ex_competition w detail series_sum =
     \<lparr>competitors = [ex_competitor ''11'' ''IND'' 98 w ''home'',
                      ex_competitor ''2'' ''BOS'' 101 (\<not> w) ''away''],
      comp_date = Some ''2024-05-27T00:00Z'',
      status_detail = Some detail,
      series = [\<lparr>series_type = Some ''playoff'', series_summary = series_sum,
                 series_title = None, series_description = None\<rparr>]\<rparr>"

definition ex_context :: "bool \<Rightarrow> string \<Rightarrow> string option \<Rightarrow> game_context" where
  "ex_context w detail series_sum =
     \<lparr>ctx_competition = ex_competition w detail series_sum,
      ctx_pacersComp = ex_competitor ''11'' ''IND'' 98 w ''home'',
      ctx_oppComp = ex_competitor ''2'' ''BOS'' 101 (\<not> w) ''away'',
      ctx_pacersScore = 98, ctx_oppScore = 101, ctx_won = w,
      ctx_homeAway = ''HOME'', ctx_opponent = ''BOS'',
      ctx_result = (if w then ''W'' else ''L'') @ '' 98-101'',
      ctx_playoffs = True\<rparr>"

definition ex_summary ::
  "competition \<Rightarrow> athlete_row list \<Rightarrow> string list \<Rightarrow> team_stat list \<Rightarrow> wp_sample list \<Rightarrow> summary" where
  "ex_summary c rows lbls tstats wps =
     \<lparr>competitions = [c], season_type = Some 3,
      boxscore_players = [\<lparr>block_team_id = Some ''11'',
                            statistics = [\<lparr>labels = lbls, athletes = rows\<rparr>]\<rparr>],
      boxscore_teams = [\<lparr>row_team_id = Some ''11'', row_statistics = tstats\<rparr>],
      winprobability = wps, plays = []\<rparr>"

definition ex_row :: "string option \<Rightarrow> string list \<Rightarrow> athlete_row" where
  "ex_row n st = \<lparr>athlete_displayName = n, athlete_id = None, stats = st, starter = Some True\<rparr>"

definition ex_entry :: "string \<Rightarrow> string \<Rightarrow> bool \<Rightarrow> entry" where
  "ex_entry d sl tr =
     \<lparr>date = d, season = ''2023-24'', opponent = ''BOS'', homeAway = ''HOME'', result = ''L 98-101'',
      playoffs = True, player = ''Team Event'', stat_line = sl,
      category = (if tr then ''TRAUMA'' else ''TEAM_WEIRDNESS''), trauma = tr,
      trauma_level = (if tr then Some ''HIGH'' else None), why = ''Hope briefly existed.'',
      image_url = []\<rparr>"

definition ex_fg :: "string \<Rightarrow> team_stat" where
  "ex_fg v = \<lparr>stat_name = Some ''fieldGoalPct'', stat_displayName = Some ''FG%'',
             stat_displayValue = Some v, stat_value = None\<rparr>"

definition dup_game :: summary where
  "dup_game = ex_summary (ex_competition True ''Final'' None)
     [ex_row None [''10''], ex_row None [''20'']] [''PTS''] [] []"

definition solo_game :: summary where
  "solo_game = ex_summary (ex_competition True ''Final'' None)
     [ex_row (Some ''A B'') [''10'']] [''PTS''] [] []"

definition game7_elimination :: summary where
  "game7_elimination = ex_summary (ex_competition False ''FINAL - GAME 7'' (Some ''BOS wins series 4-3''))
     [] [] [] []"

definition game7_blown_lead :: summary where
  "game7_blown_lead = ex_summary (ex_competition False ''FINAL - GAME 7'' None) [] [] []
     [\<lparr>homeWinPercentage = Some (99 / 100), homeScore = None, awayScore = None\<rparr>]"

definition no_minutes_game :: summary where
  "no_minutes_game = ex_summary (ex_competition True ''Final'' None)
     [ex_row (Some ''A B'') [''27'']] [''PTS''] [] []"

definition quick_game :: summary where
  "quick_game = ex_summary (ex_competition True ''Final'' None)
     [ex_row (Some ''A B'') [''26'', ''20:30'']] [''PTS'', ''MIN''] [] []"

definition cold_win :: summary where
  "cold_win = ex_summary (ex_competition True ''Final'' None) [] [] [ex_fg ''0.0''] []"

definition chilly_win :: summary where
  "chilly_win = ex_summary (ex_competition True ''Final'' None) [] [] [ex_fg ''33.3''] []"

definition lonely_game :: summary where
  "lonely_game =
     \<lparr>competitions = [\<lparr>competitors = [ex_competitor ''11'' ''IND'' 98 True ''home''],
                        comp_date = Some ''2024-05-27T00:00Z'', status_detail = None, series = []\<rparr>],
      season_type = Some 2, boxscore_players = [], boxscore_teams = [], winprobability = [],
      plays = []\<rparr>"

text \<open>More entries than the cap: trauma entries that differ in their reason only.\<close>

definition crowd_member :: "nat \<Rightarrow> entry" where
  "crowd_member i = (ex_entry ''2024-01-02'' ''98 pts, opp 101 pts'' True)\<lparr>why := replicate i CHR ''x''\<rparr>"

definition crowd :: "nat \<Rightarrow> entry list" where
  "crowd n = map crowd_member [0..<n]"

section \<open>Properties of the stat parsers\<close>

lemma list_all_takeWhile: "list_all P (takeWhile P xs)"
  by (induction xs) auto

lemma unsigned_token_no_digit:
  "\<forall>c\<in>set s. \<not> is_digit c \<Longrightarrow> unsigned_token s = None"
  by (cases s) (auto simp: unsigned_token_def)

lemma token_at_no_digit:
  "\<forall>c\<in>set s. \<not> is_digit c \<Longrightarrow> token_at s = None"
  by (cases s) (auto simp: token_at_def unsigned_token_no_digit)

lemma first_token_no_digit:
  "\<forall>c\<in>set s. \<not> is_digit c \<Longrightarrow> first_token s = None"
  by (induction s) (auto simp: token_at_no_digit)

lemma first_token_digit:
  "\<exists>c\<in>set s. is_digit c \<Longrightarrow> first_token s \<noteq> None"
proof (induction s)
  case Nil then show ?case by simp
next
  case (Cons a s)
  show ?case
  proof (cases "is_digit a")
    case True
    then have "unsigned_token (a # s) \<noteq> None"
      by (auto simp: unsigned_token_def Let_def split: list.splits)
    then have "token_at (a # s) \<noteq> None"
      by (auto simp: token_at_def)
    then show ?thesis by (auto split: option.splits)
  next
    case False
    with Cons show ?thesis by (auto split: option.splits)
  qed
qed

lemma match_colon_clock_sound:
  assumes "match_colon_clock t = Some g"
  shows "colon_clock_pattern t"
proof -
  let ?m = "takeWhile is_digit t" and ?r = "dropWhile is_digit t"
  from assms have m: "?m \<noteq> []" by (auto simp: match_colon_clock_def Let_def split: if_splits)
  from assms m obtain r1 where r: "?r = CHR '':'' # r1"
    by (auto simp: match_colon_clock_def Let_def split: if_splits list.splits)
  let ?s = "takeWhile is_digit r1" and ?f = "dropWhile is_digit r1"
  from assms m r have s: "?s \<noteq> []" "length ?s \<le> 2"
    by (auto simp: match_colon_clock_def Let_def split: if_splits list.splits)
  from assms m r s have f: "?f = [] \<or> (\<exists>d. ?f = CHR ''.'' # d \<and> all_digits d)"
    by (auto simp: match_colon_clock_def Let_def split: if_splits list.splits)
  have "t = ?m @ CHR '':'' # ?s @ ?f"
    using r by (metis takeWhile_dropWhile_id)
  with m s f show ?thesis
    unfolding colon_clock_pattern_def all_digits_def
    using list_all_takeWhile by blast
qed

lemma not_digit_colon: "\<not> is_digit CHR '':''" "\<not> is_digit CHR ''.''"
  by (simp_all add: is_digit_def)

lemma takeWhile_digits_append:
  "list_all is_digit m \<Longrightarrow> \<not> is_digit c \<Longrightarrow> takeWhile is_digit (m @ c # r) = m"
  by (induction m) auto

lemma dropWhile_digits_append:
  "list_all is_digit m \<Longrightarrow> \<not> is_digit c \<Longrightarrow> dropWhile is_digit (m @ c # r) = c # r"
  by (induction m) auto

lemma takeWhile_all: "list_all P m \<Longrightarrow> takeWhile P m = m"
  by (induction m) auto
lemma dropWhile_all: "list_all P m \<Longrightarrow> dropWhile P m = []"
  by (induction m) auto

lemma match_colon_clock_complete:
  assumes "colon_clock_pattern t"
  shows "match_colon_clock t \<noteq> None"
proof -
  from assms obtain m s f where t: "t = m @ CHR '':'' # s @ f" and m: "m \<noteq> []" "list_all is_digit m"
    and s: "s \<noteq> []" "length s \<le> 2" "list_all is_digit s"
    and f: "f = [] \<or> (\<exists>d. f = CHR ''.'' # d \<and> d \<noteq> [] \<and> list_all is_digit d)"
    unfolding colon_clock_pattern_def by blast
  have tm: "takeWhile is_digit t = m" "dropWhile is_digit t = CHR '':'' # s @ f"
    using t m by (simp_all add: takeWhile_digits_append dropWhile_digits_append not_digit_colon)
  from f show ?thesis
  proof
    assume f0: "f = []"
    from tm m s f0 show ?thesis
      by (simp add: match_colon_clock_def Let_def takeWhile_all dropWhile_all)
  next
    assume "\<exists>d. f = CHR ''.'' # d \<and> d \<noteq> [] \<and> list_all is_digit d"
    then obtain d where d: "f = CHR ''.'' # d" "d \<noteq> []" "list_all is_digit d" by blast
    from tm m s d show ?thesis
      by (simp add: match_colon_clock_def Let_def all_digits_def not_digit_colon
            takeWhile_digits_append dropWhile_digits_append)
  qed
qed

lemma text_clock_at_sound:
  "text_clock_at s = Some g \<Longrightarrow> \<exists>a c d q. s = [a, CHR '':'', c, d] @ q \<and> is_digit a \<and> is_digit c \<and> is_digit d"
  by (auto simp: text_clock_at_def split: list.splits if_splits)

lemma first_text_clock_sound:
  "first_text_clock t = Some g \<Longrightarrow> text_clock_pattern t"
proof (induction t)
  case Nil then show ?case by simp
next
  case (Cons x t)
  show ?case
  proof (cases "text_clock_at (x # t)")
    case None
    with Cons have "text_clock_pattern t" by simp
    then obtain p a c d q where "t = p @ [a, CHR '':'', c, d] @ q" "is_digit a" "is_digit c" "is_digit d"
      unfolding text_clock_pattern_def by blast
    then have "x # t = (x # p) @ [a, CHR '':'', c, d] @ q \<and> is_digit a \<and> is_digit c \<and> is_digit d" by simp
    then show ?thesis unfolding text_clock_pattern_def by blast
  next
    case (Some h)
    from text_clock_at_sound[OF this] obtain a c d q where
      "x # t = [] @ [a, CHR '':'', c, d] @ q" "is_digit a" "is_digit c" "is_digit d" by auto
    then show ?thesis unfolding text_clock_pattern_def by blast
  qed
qed

lemma first_text_clock_complete:
  "text_clock_pattern t \<Longrightarrow> first_text_clock t \<noteq> None"
proof -
  assume "text_clock_pattern t"
  then obtain p a c d q where t: "t = p @ [a, CHR '':'', c, d] @ q" and dg: "is_digit a" "is_digit c" "is_digit d"
    unfolding text_clock_pattern_def by blast
  from dg have "text_clock_at ([a, CHR '':'', c, d] @ q) \<noteq> None"
    by (simp add: text_clock_at_def)
  then have "first_text_clock (p @ [a, CHR '':'', c, d] @ q) \<noteq> None"
    by (induction p) (auto split: option.splits)
  with t show ?thesis by simp
qed

lemma lower_char_cases: "lower_char c = c \<or> lower_char c \<in> set lower_letters"
proof (cases "map_of (zip upper_letters lower_letters) c")
  case None then show ?thesis by (simp add: lower_char_def)
next
  case (Some l)
  then have "l \<in> set lower_letters" by (meson map_of_SomeD set_zip_rightD)
  with Some show ?thesis by (simp add: lower_char_def)
qed

lemma lower_char_digit: "is_digit (lower_char c) \<Longrightarrow> is_digit c"
  using lower_char_cases[of c] by (auto simp: is_digit_def lower_letters_def)

lemma lower_char_colon: "lower_char c = CHR '':'' \<Longrightarrow> c = CHR '':''"
  using lower_char_cases[of c] by (auto simp: lower_letters_def)

lemma text_clock_pattern_lower:
  assumes "text_clock_pattern (toLowerCase t)"
  shows "text_clock_pattern t"
proof -
  from assms obtain p a c d q where
    e: "map lower_char t = p @ [a, CHR '':'', c, d] @ q" and dg: "is_digit a" "is_digit c" "is_digit d"
    unfolding text_clock_pattern_def toLowerCase_def by blast
  from e obtain p' r' where t: "t = p' @ r'" and "map lower_char p' = p"
    and r: "map lower_char r' = [a, CHR '':'', c, d] @ q"
    by (auto simp: map_eq_append_conv)
  from r obtain a' b' c' d' q' where r': "r' = [a', b', c', d'] @ q'"
    and l: "lower_char a' = a" "lower_char b' = CHR '':''" "lower_char c' = c" "lower_char d' = d"
    by (auto simp: map_eq_Cons_conv)
  from l dg have "is_digit a'" "b' = CHR '':''" "is_digit c'" "is_digit d'"
    by (auto dest: lower_char_digit lower_char_colon)
  with t r' have "t = p' @ [a', CHR '':'', c', d'] @ q' \<and> is_digit a' \<and> is_digit c' \<and> is_digit d'"
    by simp
  then show ?thesis unfolding text_clock_pattern_def by blast
qed

lemma trim_Nil: "trim [] = []" by (simp add: trim_def)

lemma trim_spaces: "list_all is_space s \<Longrightarrow> trim s = []"
  by (simp add: trim_def dropWhile_all)

text \<open>
  Claim C8. The three parsers are total functions without an error result:
  \<^verbatim>\<open>parseNumberFromStat\<close> is 0 on an absent value and on a string without a digit (a string
  has a token of \<^verbatim>\<open>-?\d+(?:\.\d+)?\<close> exactly when it has a digit, see
  \<open>first_token_no_digit\<close> and \<open>first_token_digit\<close>); \<^verbatim>\<open>parseMinutes\<close> is 0 on an absent,
  empty or blank value; and \<^verbatim>\<open>parseClockToSeconds\<close> is \<^verbatim>\<open>Infinity\<close> when the trimmed display
  value has not the form of a clock and the text holds no clock.
\<close>

theorem parsers_total_defaults:
  "parseNumberFromStat None = 0
   \<and> (\<forall>s. (\<forall>c\<in>set s. \<not> is_digit c) \<longrightarrow> parseNumberFromStat (Some s) = 0)
   \<and> parseMinutes None = 0
   \<and> (\<forall>s. list_all is_space s \<longrightarrow> parseMinutes (Some s) = 0)
   \<and> (\<forall>p. \<not> colon_clock_pattern (trim (or_empty (clock_displayValue p)))
          \<and> \<not> text_clock_pattern (or_empty (play_text p))
          \<longrightarrow> parseClockToSeconds p = PosInfinity)"
proof (intro conjI allI impI)
  show "parseNumberFromStat None = 0" by (simp add: parseNumberFromStat_def)
next
  fix s assume "\<forall>c\<in>set s. \<not> is_digit c"
  then show "parseNumberFromStat (Some s) = 0"
    by (simp add: parseNumberFromStat_def first_token_no_digit)
next
  show "parseMinutes None = 0" by (simp add: parseMinutes_def or_empty_def trim_Nil)
next
  fix s assume "list_all is_space s"
  then show "parseMinutes (Some s) = 0" by (simp add: parseMinutes_def or_empty_def trim_spaces)
next
  fix p :: play
  assume h: "\<not> colon_clock_pattern (trim (or_empty (clock_displayValue p)))
          \<and> \<not> text_clock_pattern (or_empty (play_text p))"
  have 1: "match_colon_clock (trim (or_empty (clock_displayValue p))) = None"
    using h match_colon_clock_sound by (cases "match_colon_clock (trim (or_empty (clock_displayValue p)))") auto
  have 2: "first_text_clock (toLowerCase (or_empty (play_text p))) = None"
    using h first_text_clock_sound text_clock_pattern_lower
    by (cases "first_text_clock (toLowerCase (or_empty (play_text p)))") auto
  show "parseClockToSeconds p = PosInfinity"
    by (simp add: parseClockToSeconds_def Let_def 1 2)
qed

lemma colon_clock_pattern_colon: "colon_clock_pattern t \<Longrightarrow> CHR '':'' \<in> set t"
  by (auto simp: colon_clock_pattern_def)
lemma text_clock_pattern_colon: "text_clock_pattern t \<Longrightarrow> CHR '':'' \<in> set t"
  by (auto simp: text_clock_pattern_def)

theorem parsers_total_defaults_witness:
  "parseNumberFromStat (Some ''DNP - rest'') = 0
   \<and> parseMinutes (Some ''  '') = 0
   \<and> parseClockToSeconds \<lparr>play_text = Some ''Smith makes jumper'', clock_displayValue = Some ''end''\<rparr> = PosInfinity"
proof -
  have a: "\<forall>c\<in>set ''DNP - rest''. \<not> is_digit c" by (simp add: is_digit_def)
  have b: "list_all is_space ''  ''" by (simp add: is_space_def)
  have c: "\<not> colon_clock_pattern (trim (or_empty (clock_displayValue \<lparr>play_text = Some ''Smith makes jumper'', clock_displayValue = Some ''end''\<rparr>)))"
    using colon_clock_pattern_colon[of "''end''"] by (auto simp: trim_def or_empty_def is_space_def)
  have d: "\<not> text_clock_pattern (or_empty (play_text \<lparr>play_text = Some ''Smith makes jumper'', clock_displayValue = Some ''end''\<rparr>))"
    using text_clock_pattern_colon[of "''Smith makes jumper''"] by (auto simp: or_empty_def)
  from parsers_total_defaults a b c d show ?thesis by blast
qed

section \<open>Properties of the curator\<close>

lemma mset_insert_sorted: "mset (insert_sorted cmp x ys) = add_mset x (mset ys)"
  by (induction ys) auto

lemma mset_js_sort: "mset (js_sort cmp xs) = mset xs"
  by (induction xs) (auto simp: js_sort_def mset_insert_sorted)

lemma set_js_sort: "set (js_sort cmp xs) = set xs"
  using mset_js_sort by (metis set_mset_mset)

lemma length_js_sort: "length (js_sort cmp xs) = length xs"
  using mset_js_sort by (metis size_mset)

lemma set_insert_sorted: "set (insert_sorted cmp x ys) = insert x (set ys)"
  using mset_insert_sorted by (metis set_mset_mset set_mset_add_mset_insert)

lemma sorted_insert_sorted:
  assumes total: "\<And>a b. \<not> cmp a b \<le> 0 \<Longrightarrow> cmp b a \<le> 0"
    and trans: "\<And>a b c. cmp a b \<le> 0 \<Longrightarrow> cmp b c \<le> 0 \<Longrightarrow> cmp a c \<le> 0"
    and "sorted_wrt (\<lambda>a b. cmp a b \<le> 0) ys"
  shows "sorted_wrt (\<lambda>a b. cmp a b \<le> 0) (insert_sorted cmp x ys)"
  using assms(3)
proof (induction ys)
  case Nil then show ?case by simp
next
  case (Cons y ys)
  show ?case
  proof (cases "cmp x y \<le> 0")
    case True
    with Cons.prems trans show ?thesis by (auto)
  next
    case False
    then have "cmp y x \<le> 0" by (rule total)
    with False Cons show ?thesis by (auto simp: set_insert_sorted)
  qed
qed

lemma sorted_js_sort:
  assumes total: "\<And>a b. \<not> cmp a b \<le> 0 \<Longrightarrow> cmp b a \<le> 0"
    and trans: "\<And>a b c. cmp a b \<le> 0 \<Longrightarrow> cmp b c \<le> 0 \<Longrightarrow> cmp a c \<le> 0"
  shows "sorted_wrt (\<lambda>a b. cmp a b \<le> 0) (js_sort cmp xs)"
proof (induction xs)
  case Nil then show ?case by (simp add: js_sort_def)
next
  case (Cons x xs)
  have "js_sort cmp (x # xs) = insert_sorted cmp x (js_sort cmp xs)" by (simp add: js_sort_def)
  with Cons sorted_insert_sorted[of cmp, OF total trans] show ?case by simp
qed

lemma js_sort_sorted_id:
  "sorted_wrt (\<lambda>a b. cmp a b \<le> 0) xs \<Longrightarrow> js_sort cmp xs = xs"
proof (induction xs)
  case Nil then show ?case by (simp add: js_sort_def)
next
  case (Cons x xs)
  then have ih: "js_sort cmp xs = xs" by simp
  have "js_sort cmp (x # xs) = insert_sorted cmp x (js_sort cmp xs)" by (simp add: js_sort_def)
  with ih Cons.prems show ?case by (cases xs) auto
qed

lemma by_date_desc_le: "by_date_desc a b \<le> 0 \<longleftrightarrow> date b \<le> date a"
  by (auto simp: by_date_desc_def localeCompare_def)

lemma by_quality_le:
  "by_quality a b \<le> 0 \<longleftrightarrow>
     entryQualityScore b < entryQualityScore a
     \<or> (entryQualityScore b = entryQualityScore a \<and> date b \<le> date a)"
  by (auto simp: by_quality_def localeCompare_def Let_def)

lemma date_descending_js_sort: "date_descending (js_sort by_date_desc xs)"
proof -
  have "sorted_wrt (\<lambda>a b. by_date_desc a b \<le> 0) (js_sort by_date_desc xs)"
    by (rule sorted_js_sort) (auto simp: by_date_desc_le)
  then show ?thesis by (simp add: date_descending_def by_date_desc_le)
qed

lemma quality_sorted_js_sort:
  "sorted_wrt (\<lambda>a b. by_quality a b \<le> 0) (js_sort by_quality xs)"
  by (rule sorted_js_sort) (auto simp: by_quality_le)

lemma js_sort_date_descending_id: "date_descending xs \<Longrightarrow> js_sort by_date_desc xs = xs"
  by (rule js_sort_sorted_id) (simp add: date_descending_def by_date_desc_le)

lemma dedupe_loop_subset: "set (dedupe_loop es seen) \<subseteq> set es"
  by (induction es arbitrary: seen) auto

lemma dedupe_loop_keys:
  "set (map entry_key (dedupe_loop es seen)) = set (map entry_key es) - seen"
  by (induction es arbitrary: seen) auto

lemma dedupe_loop_distinct: "distinct (map entry_key (dedupe_loop es seen))"
  by (induction es arbitrary: seen) (auto simp: dedupe_loop_keys simp del: set_map)

lemma dedupe_loop_id:
  "distinct (map entry_key es) \<Longrightarrow> set (map entry_key es) \<inter> seen = {} \<Longrightarrow> dedupe_loop es seen = es"
  by (induction es arbitrary: seen) auto

lemma dedupeEntries_distinct: "distinct (map entry_key (dedupeEntries es))"
  by (simp add: dedupeEntries_def dedupe_loop_distinct)

lemma dedupeEntries_id: "distinct (map entry_key es) \<Longrightarrow> dedupeEntries es = es"
  by (simp add: dedupeEntries_def dedupe_loop_id)

lemma dedupeEntries_subset: "set (dedupeEntries es) \<subseteq> set es"
  by (simp add: dedupeEntries_def dedupe_loop_subset)

lemma distinct_keys_js_sort:
  "distinct (map entry_key xs) \<Longrightarrow> distinct (map entry_key (js_sort cmp xs))"
proof -
  assume d: "distinct (map entry_key xs)"
  have "mset (map entry_key (js_sort cmp xs)) = mset (map entry_key xs)"
    by (simp add: mset_js_sort)
  then show ?thesis using d by (metis mset_eq_imp_distinct_iff)
qed

lemma distinct_keys_take:
  "distinct (map entry_key xs) \<Longrightarrow> distinct (map entry_key (take n xs))"
  by (simp add: take_map [symmetric] del: take_map)

lemma finalEntries_fixed:
  assumes "distinct (map entry_key xs)" "length xs \<le> 400" "date_descending xs"
  shows "finalEntries xs = xs"
  using assms
  by (simp add: finalEntries_def Let_def CORPUS_CAP_def dedupeEntries_id js_sort_date_descending_id)

lemma finalEntries_distinct: "distinct (map entry_key (finalEntries c))"
  by (simp add: finalEntries_def Let_def distinct_keys_js_sort distinct_keys_take dedupeEntries_distinct)

lemma finalEntries_length: "length (finalEntries c) \<le> 400"
  by (simp add: finalEntries_def Let_def CORPUS_CAP_def length_js_sort)

lemma finalEntries_descending: "date_descending (finalEntries c)"
  by (simp add: finalEntries_def Let_def date_descending_js_sort)

lemma finalEntries_subset: "set (finalEntries c) \<subseteq> set c"
proof -
  have "set (take CORPUS_CAP (js_sort by_quality (js_sort by_date_desc (dedupeEntries c))))
          \<subseteq> set (dedupeEntries c)"
    using set_take_subset[of CORPUS_CAP "js_sort by_quality (js_sort by_date_desc (dedupeEntries c))"]
    by (simp add: set_js_sort)
  then have "set (finalEntries c) \<subseteq> set (dedupeEntries c)"
    by (simp add: finalEntries_def Let_def set_js_sort)
  with dedupeEntries_subset show ?thesis by blast
qed









text \<open>
  Claim C4. The curator is idempotent: on a list whose entries have distinct deduplication
  keys, that has at most 400 entries and is in descending order of date, deduplication, the
  cap and the final sort give the list back; and since every output of the curator is such a
  list, running the curator on its own output changes nothing.
\<close>

theorem curator_idempotent:
  "(distinct (map entry_key xs) \<and> length xs \<le> 400 \<and> date_descending xs \<longrightarrow> finalEntries xs = xs)
   \<and> finalEntries (finalEntries c) = finalEntries c"
  using finalEntries_fixed finalEntries_distinct finalEntries_length finalEntries_descending
  by blast

lemma score_trauma_lower:
  "trauma e \<Longrightarrow> 0 \<le> stat_line_points e \<Longrightarrow> 100 \<le> entryQualityScore e"
  by (auto simp: entryQualityScore_def Let_def min_def)

lemma score_plain_upper: "\<not> trauma e \<Longrightarrow> entryQualityScore e \<le> 85"
  by (auto simp: entryQualityScore_def Let_def min_def)

lemma take_before_drop:
  assumes "sorted_wrt R q" "n \<in> set (take k q)" "t \<in> set (drop k q)"
  shows "R n t"
proof -
  have "sorted_wrt R (take k q @ drop k q)" using assms(1) by simp
  then show ?thesis using assms(2,3) unfolding sorted_wrt_append by blast
qed

lemma cap_keeps_trauma:
  assumes pts: "\<forall>e\<in>set c. trauma e \<longrightarrow> 0 \<le> stat_line_points e"
    and t: "t \<in> set (dedupeEntries c)" "trauma t" "t \<notin> set (finalEntries c)"
    and n: "n \<in> set (finalEntries c)"
  shows "trauma n"
proof (rule ccontr)
  assume nt: "\<not> trauma n"
  let ?all = "js_sort by_date_desc (dedupeEntries c)"
  let ?q = "js_sort by_quality ?all"
  have big: "length ?all > CORPUS_CAP"
  proof (rule ccontr)
    assume "\<not> length ?all > CORPUS_CAP"
    then have "finalEntries c = ?all" by (simp add: finalEntries_def Let_def)
    with t show False by (simp add: set_js_sort)
  qed
  then have fin: "set (finalEntries c) = set (take CORPUS_CAP ?q)"
    by (simp add: finalEntries_def Let_def set_js_sort)
  have "t \<in> set ?q" using t(1) by (simp add: set_js_sort)
  then have "t \<in> set (take CORPUS_CAP ?q) \<union> set (drop CORPUS_CAP ?q)"
    by (metis append_take_drop_id set_append)
  with t(3) fin have td: "t \<in> set (drop CORPUS_CAP ?q)" by simp
  from n fin have nd: "n \<in> set (take CORPUS_CAP ?q)" by simp
  have "by_quality n t \<le> 0"
    using take_before_drop[OF quality_sorted_js_sort nd td] .
  then have le: "entryQualityScore t \<le> entryQualityScore n" by (auto simp: by_quality_le)
  have "t \<in> set c" using t(1) dedupeEntries_subset by blast
  with pts t(2) have "100 \<le> entryQualityScore t" by (simp add: score_trauma_lower)
  moreover have "entryQualityScore n \<le> 85" using nt by (rule score_plain_upper)
  ultimately show False using le by simp
qed

text \<open>
  Claim C10. When the points parsed from the stat lines are not negative, a trauma entry
  scores at least 100 and an entry without the trauma flag at most 85, so the trauma entry
  scores strictly more; hence, if the points of the trauma candidates are not negative, the
  cap never drops a trauma entry of the deduplicated candidates while the corpus keeps an
  entry without the flag.
\<close>

theorem trauma_outranks_plain:
  "(trauma a \<and> \<not> trauma b \<and> 0 \<le> stat_line_points a \<and> 0 \<le> stat_line_points b \<longrightarrow>
      100 \<le> entryQualityScore a \<and> entryQualityScore b \<le> 85
      \<and> entryQualityScore b < entryQualityScore a)
   \<and> ((\<forall>e\<in>set c. trauma e \<longrightarrow> 0 \<le> stat_line_points e)
        \<and> t \<in> set (dedupeEntries c) \<and> trauma t \<and> t \<notin> set (finalEntries c)
        \<and> n \<in> set (finalEntries c) \<longrightarrow> trauma n)"
proof (intro conjI impI)
  assume h: "trauma a \<and> \<not> trauma b \<and> 0 \<le> stat_line_points a \<and> 0 \<le> stat_line_points b"
  then show 1: "100 \<le> entryQualityScore a" by (simp add: score_trauma_lower)
  from h show 2: "entryQualityScore b \<le> 85" by (simp add: score_plain_upper)
  from 1 2 show "entryQualityScore b < entryQualityScore a" by simp
next
  assume "(\<forall>e\<in>set c. trauma e \<longrightarrow> 0 \<le> stat_line_points e)
        \<and> t \<in> set (dedupeEntries c) \<and> trauma t \<and> t \<notin> set (finalEntries c)
        \<and> n \<in> set (finalEntries c)"
  then show "trauma n" using cap_keeps_trauma by blast
qed

section \<open>Properties of the traversal\<close>

lemma process_event_processed:
  "process_event state f =
     (case processed_game f of
        None \<Rightarrow> state
      | Some (s, ctx, k) \<Rightarrow>
          (snd (detectPlayerMoments s ctx (fst state) k),
           snd state @ fst (detectPlayerMoments s ctx (fst state) k)
           @ detectTeamWeirdness s ctx @ detectTrauma s ctx))"
  by (cases state) (simp add: process_event_def processed_game_def Let_def split: option.splits)

lemma collect_None_iff:
  "collectPacersTeamContext s = None \<longleftrightarrow>
     \<not> (\<exists>c\<in>set (competitors (first_competition s)). competitor_id c = PACERS_TEAM_ID)
     \<or> \<not> (\<exists>c\<in>set (competitors (first_competition s)). competitor_id c \<noteq> PACERS_TEAM_ID)"
proof -
  have "collectPacersTeamContext s = None \<longleftrightarrow>
      find (\<lambda>c. competitor_id c = PACERS_TEAM_ID) (competitors (first_competition s)) = None
      \<or> find (\<lambda>c. competitor_id c \<noteq> PACERS_TEAM_ID) (competitors (first_competition s)) = None"
    by (simp add: collectPacersTeamContext_def Let_def split: option.splits)
  then show ?thesis by (auto simp: find_None_iff)
qed

lemma process_event_no_context:
  "collectPacersTeamContext s = None \<Longrightarrow> process_event state (Some s) = state"
  by (simp add: process_event_def Let_def)

lemma traverse_skip:
  "process_event (foldl process_event init pre) x = foldl process_event init pre
   \<Longrightarrow> foldl process_event init (pre @ x # post) = foldl process_event init (pre @ post)"
  by simp

text \<open>
  Claim C7. When the competitors of the first competition hold no competitor with the team's
  id, or none with another id, context extraction gives no context, the pass of the loop
  leaves the running averages and the collected entries as they were, and the traversal is
  the same as without the game.
\<close>

theorem unresolved_context_skipped:
  assumes "\<not> (\<exists>c\<in>set (competitors (first_competition s)). competitor_id c = PACERS_TEAM_ID)
     \<or> \<not> (\<exists>c\<in>set (competitors (first_competition s)). competitor_id c \<noteq> PACERS_TEAM_ID)"
  shows "collectPacersTeamContext s = None
     \<and> process_event (runningAverages, collected) (Some s) = (runningAverages, collected)
     \<and> traverse (pre @ Some s # post) = traverse (pre @ post)"
proof -
  from assms have n: "collectPacersTeamContext s = None" using collect_None_iff by blast
  then show ?thesis
    by (simp add: process_event_no_context traverse_def)
qed

lemma createBaseEntry_fields:
  "category (createBaseEntry ctx s p sl cat r) = cat"
  "trauma (createBaseEntry ctx s p sl cat r) = False"
  "trauma_level (createBaseEntry ctx s p sl cat r) = None"
  "why (createBaseEntry ctx s p sl cat r) = r"
  "stat_line (createBaseEntry ctx s p sl cat r) = sl"
  "player (createBaseEntry ctx s p sl cat r) = (if player_name p \<noteq> [] then player_name p else ''Unknown'')"
  by (simp_all add: createBaseEntry_def Let_def)

lemma shape_base:
  "cat \<noteq> ''TRAUMA'' \<Longrightarrow> entry_shape (createBaseEntry ctx s p sl cat r)"
  by (simp add: entry_shape_def createBaseEntry_fields)

lemma shape_traumaify: "entry_shape (traumaify e r)"
  by (simp add: entry_shape_def traumaify_def)

lemma athlete_step_append:
  "athlete_step ctx s lbls k (ev, st) row =
     (ev @ fst (athlete_step ctx s lbls k ([], st) row), snd (athlete_step ctx s lbls k ([], st) row))"
  by (simp add: athlete_step_def Let_def)

lemma athlete_events_shape: "list_all entry_shape (athlete_events ctx s lbls row avg)"
  by (simp add: athlete_events_def Let_def shape_base)

lemma athlete_step_shape:
  "list_all entry_shape (fst (athlete_step ctx s lbls k ([], st) row))"
  by (simp add: athlete_step_def Let_def athlete_events_shape)

lemma athlete_loop_append:
  "foldl (athlete_step ctx s lbls k) (ev, st) rows =
     (ev @ fst (foldl (athlete_step ctx s lbls k) ([], st) rows),
      snd (foldl (athlete_step ctx s lbls k) ([], st) rows))"
proof (induction rows arbitrary: ev st)
  case Nil then show ?case by simp
next
  case (Cons row rows)
  obtain e1 s1 where r: "athlete_step ctx s lbls k ([], st) row = (e1, s1)" by (cases "athlete_step ctx s lbls k ([], st) row")
  have a: "athlete_step ctx s lbls k (ev, st) row = (ev @ e1, s1)"
    using athlete_step_append[of ctx s lbls k ev st row] r by simp
  show ?case
    using Cons.IH[of "ev @ e1" s1] Cons.IH[of e1 s1] by (simp add: a r)
qed

lemma athlete_loop_shape:
  "list_all entry_shape (fst (foldl (athlete_step ctx s lbls k) ([], st) rows))"
proof (induction rows arbitrary: st)
  case Nil then show ?case by simp
next
  case (Cons row rows)
  obtain e1 s1 where r: "athlete_step ctx s lbls k ([], st) row = (e1, s1)" by (cases "athlete_step ctx s lbls k ([], st) row")
  have "list_all entry_shape e1" using athlete_step_shape[of ctx s lbls k st row] r by simp
  moreover have "foldl (athlete_step ctx s lbls k) ([], st) (row # rows)
     = (e1 @ fst (foldl (athlete_step ctx s lbls k) ([], s1) rows), snd (foldl (athlete_step ctx s lbls k) ([], s1) rows))"
    using athlete_loop_append[of ctx s lbls k e1 s1 rows] r by simp
  ultimately show ?case using Cons.IH[of s1] by simp
qed

lemma detectPlayerMoments_shape:
  "list_all entry_shape (fst (detectPlayerMoments s ctx st k))"
  by (simp add: detectPlayerMoments_def athlete_loop_shape split: option.splits)

lemma detectTeamWeirdness_shape: "list_all entry_shape (detectTeamWeirdness s ctx)"
  by (simp add: detectTeamWeirdness_def Let_def shape_base)

lemma detectTrauma_shape: "list_all entry_shape (detectTrauma s ctx)"
  by (simp add: detectTrauma_def shape_traumaify split: list.splits)

lemma process_event_shape:
  "list_all entry_shape (snd state) \<Longrightarrow> list_all entry_shape (snd (process_event state f))"
  by (simp add: process_event_def Let_def detectPlayerMoments_shape detectTeamWeirdness_shape
        detectTrauma_shape split: option.splits)

lemma traverse_loop_shape:
  "list_all entry_shape (snd state) \<Longrightarrow> list_all entry_shape (snd (foldl process_event state fs))"
  by (induction fs arbitrary: state) (simp_all add: process_event_shape)

section \<open>Properties of the classifiers\<close>

text \<open>
  Claim C9. In every entry of the final corpus the trauma flag is set exactly when the
  category is \<^verbatim>\<open>TRAUMA\<close>, and the trauma level is present exactly when the flag is set. A
  base entry has the flag unset and no level; the trauma upgrade gives an entry of category
  \<^verbatim>\<open>TRAUMA\<close> with the flag set and the level \<^verbatim>\<open>HIGH\<close>.
\<close>

theorem final_corpus_shape:
  "(\<forall>e\<in>set (main fetched).
      (trauma e \<longleftrightarrow> category e = ''TRAUMA'') \<and> (trauma_level e \<noteq> None \<longleftrightarrow> trauma e))
   \<and> trauma (createBaseEntry ctx s p statLine cat reason) = False
   \<and> trauma_level (createBaseEntry ctx s p statLine cat reason) = None
   \<and> category (traumaify b r) = ''TRAUMA'' \<and> trauma (traumaify b r) = True
   \<and> trauma_level (traumaify b r) = Some ''HIGH''"
proof -
  have "list_all entry_shape (snd (traverse fetched))"
    unfolding traverse_def by (rule traverse_loop_shape) simp
  then have "\<forall>e\<in>set (main fetched). entry_shape e"
    using finalEntries_subset[of "snd (traverse fetched)"]
    by (auto simp: main_def list_all_iff)
  then show ?thesis
    by (simp add: entry_shape_def createBaseEntry_fields traumaify_def)
qed

lemma traumaReasons_first:
  "traumaReasons s ctx = (case first_trauma_reason s ctx of None \<Rightarrow> [] | Some r \<Rightarrow> r # tl (traumaReasons s ctx))"
  by (simp add: traumaReasons_def first_trauma_reason_def)

lemma detectTrauma_first:
  "detectTrauma s ctx =
     (if ctx_won ctx then []
      else (case first_trauma_reason s ctx of None \<Rightarrow> [] | Some r \<Rightarrow> [traumaify (trauma_base s ctx) r]))"
  by (simp add: detectTrauma_def traumaReasons_def first_trauma_reason_def)

lemma starts_with_iff: "starts_with s p \<longleftrightarrow> (\<exists>r. s = p @ r)"
  by (induction s p rule: starts_with.induct) auto

lemma str_includes_iff: "str_includes s sub \<longleftrightarrow> (\<exists>p r. s = p @ sub @ r)"
proof (induction s)
  case Nil then show ?case by auto
next
  case (Cons c cs)
  show ?case
  proof
    assume "str_includes (c # cs) sub"
    then consider "starts_with (c # cs) sub" | "str_includes cs sub" by auto
    then show "\<exists>p r. c # cs = p @ sub @ r"
    proof cases
      case 1
      then obtain r where "c # cs = [] @ sub @ r" by (auto simp: starts_with_iff)
      then show ?thesis by blast
    next
      case 2
      with Cons obtain p r where "cs = p @ sub @ r" by blast
      then have "c # cs = (c # p) @ sub @ r" by simp
      then show ?thesis by blast
    qed
  next
    assume "\<exists>p r. c # cs = p @ sub @ r"
    then obtain p r where e: "c # cs = p @ sub @ r" by blast
    show "str_includes (c # cs) sub"
    proof (cases p)
      case Nil
      with e have "starts_with (c # cs) sub" by (auto simp: starts_with_iff)
      then show ?thesis by simp
    next
      case (Cons a p')
      with e have "cs = p' @ sub @ r" by simp
      with Cons.IH show ?thesis by auto
    qed
  qed
qed

lemma str_includes_map:
  "str_includes s sub \<Longrightarrow> str_includes (map f s) (map f sub)"
proof -
  assume "str_includes s sub"
  then obtain p r where "s = p @ sub @ r" unfolding str_includes_iff by blast
  then have "map f s = map f p @ map f sub @ map f r" by simp
  then show ?thesis unfolding str_includes_iff by blast
qed

lemma upper_GAME7: "toUpperCase ''GAME 7'' = ''GAME 7''"
  by (simp add: toUpperCase_def upper_char_def lower_letters_def upper_letters_def)

lemma game7_rule_raw:
  "ctx_playoffs ctx \<Longrightarrow> str_includes (or_empty (status_detail (ctx_competition ctx))) ''GAME 7''
   \<Longrightarrow> game7_rule ctx"
  using str_includes_map[of "or_empty (status_detail (ctx_competition ctx))" "''GAME 7''" upper_char] upper_GAME7
  by (simp add: game7_rule_def toUpperCase_def)

text \<open>
  Claim C3, amended. The trauma classifier gives nothing for a game the team won and at most
  one entry for any game; an entry it gives is a trauma entry whose reason is the first
  matching one in the order elimination, Game 7, conference finals or finals, rival, blown
  lead, buzzer beater, and it gives one whenever the team lost and some rule matches. For a
  playoff loss whose status detail contains \<^verbatim>\<open>GAME 7\<close> the one entry has the Game 7
  reason, whatever lower rule matches too, provided the elimination rule does not match.
\<close>

theorem trauma_single_cause:
  "(ctx_won ctx \<longrightarrow> detectTrauma s ctx = [])
   \<and> length (detectTrauma s ctx) \<le> 1
   \<and> (\<forall>e\<in>set (detectTrauma s ctx).
        \<not> ctx_won ctx \<and> first_trauma_reason s ctx = Some (why e)
        \<and> category e = ''TRAUMA'' \<and> trauma e)
   \<and> (\<not> ctx_won ctx \<and> first_trauma_reason s ctx \<noteq> None \<longrightarrow> length (detectTrauma s ctx) = 1)
   \<and> (\<not> ctx_won ctx \<and> ctx_playoffs ctx
        \<and> str_includes (or_empty (status_detail (ctx_competition ctx))) ''GAME 7''
        \<and> \<not> elimination_rule ctx
        \<longrightarrow> (\<exists>e. detectTrauma s ctx = [e] \<and> why e = game7_reason))"
proof (intro conjI impI ballI)
  show "length (detectTrauma s ctx) \<le> 1"
    by (simp add: detectTrauma_first split: option.splits)
next
  assume "ctx_won ctx" then show "detectTrauma s ctx = []" by (simp add: detectTrauma_first)
next
  fix e assume e: "e \<in> set (detectTrauma s ctx)"
  then show "\<not> ctx_won ctx" by (auto simp: detectTrauma_first split: if_splits)
  from e show "first_trauma_reason s ctx = Some (why e)"
    by (auto simp: detectTrauma_first traumaify_def split: if_splits option.splits)
  from e show "category e = ''TRAUMA''"
    by (auto simp: detectTrauma_first traumaify_def split: if_splits option.splits)
  from e show "trauma e"
    by (auto simp: detectTrauma_first traumaify_def split: if_splits option.splits)
next
  assume "\<not> ctx_won ctx \<and> first_trauma_reason s ctx \<noteq> None"
  then show "length (detectTrauma s ctx) = 1"
    by (auto simp: detectTrauma_first split: option.splits)
next
  assume h: "\<not> ctx_won ctx \<and> ctx_playoffs ctx
        \<and> str_includes (or_empty (status_detail (ctx_competition ctx))) ''GAME 7''
        \<and> \<not> elimination_rule ctx"
  then have "game7_rule ctx" by (simp add: game7_rule_raw)
  with h have "first_trauma_reason s ctx = Some game7_reason"
    by (simp add: first_trauma_reason_def)
  with h show "\<exists>e. detectTrauma s ctx = [e] \<and> why e = game7_reason"
    by (simp add: detectTrauma_first traumaify_def)
qed

text \<open>
  Claim C6, amended. For a game the team won with a parsed field-goal percentage above 0 and
  below 35, the team classifier gives the entry of category \<^verbatim>\<open>TEAM_WEIRDNESS\<close> whose reason
  is the one of a win while shooting badly, with the percentage in it; and when the game is
  one the traversal processes, the entry is among the candidates collected after its pass.
\<close>

theorem bad_shooting_win_emitted:
  "ctx_won ctx \<and> 0 < fgPct (parseTeamStats s ctx) \<and> fgPct (parseTeamStats s ctx) < 35 \<longrightarrow>
     bad_shooting_entry s ctx \<in> set (detectTeamWeirdness s ctx)
     \<and> category (bad_shooting_entry s ctx) = ''TEAM_WEIRDNESS''
     \<and> why (bad_shooting_entry s ctx) =
         ''Pacers won while shooting '' @ toFixed1 (fgPct (parseTeamStats s ctx))
         @ ''%. Basketball is fake.''
     \<and> (processed_game f = Some (s, ctx, k) \<longrightarrow>
          bad_shooting_entry s ctx \<in> set (snd (process_event state f)))"
proof (intro impI conjI)
  assume h: "ctx_won ctx \<and> 0 < fgPct (parseTeamStats s ctx) \<and> fgPct (parseTeamStats s ctx) < 35"
  then show m: "bad_shooting_entry s ctx \<in> set (detectTeamWeirdness s ctx)"
    by (simp add: detectTeamWeirdness_def Let_def parseTeamStats_def bad_shooting_entry_def)
  show "category (bad_shooting_entry s ctx) = ''TEAM_WEIRDNESS''"
    by (simp add: bad_shooting_entry_def createBaseEntry_fields)
  show "why (bad_shooting_entry s ctx) =
         ''Pacers won while shooting '' @ toFixed1 (fgPct (parseTeamStats s ctx))
         @ ''%. Basketball is fake.''"
    by (simp add: bad_shooting_entry_def createBaseEntry_fields)
  assume "processed_game f = Some (s, ctx, k)"
  with m show "bad_shooting_entry s ctx \<in> set (snd (process_event state f))"
    by (simp add: process_event_processed)
qed

lemma athlete_loop_events:
  "fst (foldl (athlete_step ctx s lbls k) (ev, st) (pre @ row # post)) =
     fst (foldl (athlete_step ctx s lbls k) (ev, st) pre)
     @ athlete_events ctx s lbls row
         (lookup_avg (snd (foldl (athlete_step ctx s lbls k) (ev, st) pre)) (avgKey k (athlete_name row)))
     @ fst (foldl (athlete_step ctx s lbls k)
              ([], snd (athlete_step ctx s lbls k (foldl (athlete_step ctx s lbls k) (ev, st) pre) row)) post)"
proof -
  obtain e1 s1 where p: "foldl (athlete_step ctx s lbls k) (ev, st) pre = (e1, s1)"
    by (cases "foldl (athlete_step ctx s lbls k) (ev, st) pre")
  obtain e2 s2 where q: "athlete_step ctx s lbls k (e1, s1) row = (e2, s2)"
    by (cases "athlete_step ctx s lbls k (e1, s1) row")
  have e2: "e2 = e1 @ athlete_events ctx s lbls row (lookup_avg s1 (avgKey k (athlete_name row)))"
    using q by (simp add: athlete_step_def Let_def)
  show ?thesis
    using athlete_loop_append[of ctx s lbls k e2 s2 post]
    by (simp add: p q e2)
qed

lemma randomWhy_eruption:
  assumes "pts \<ge> 25" "0 < minutes" "minutes < 25"
    "\<not> (isBench \<and> pts \<ge> 30)" "\<not> pts \<ge> 45"
    "\<not> (pts \<ge> 35 \<and> preGameAverage avg < 12 \<and> avg_games avg \<ge> 8)"
  shows "randomWhy name isBench pts minutes avg =
           name @ '' scored '' @ num_str pts @ '' in '' @ toFixed1 minutes @ '' minutes.''"
  using assms by (auto simp: randomWhy_def)

lemma athlete_events_eruption:
  assumes "athlete_points row lbls \<ge> 25" "0 < athlete_minutes row lbls" "athlete_minutes row lbls < 25"
    "\<not> (starter row = Some False \<and> athlete_points row lbls \<ge> 30)" "\<not> athlete_points row lbls \<ge> 45"
    "\<not> (athlete_points row lbls \<ge> 35 \<and> preGameAverage avg < 12 \<and> avg_games avg \<ge> 8)"
  shows "\<exists>e\<in>set (athlete_events ctx s lbls row avg).
           category e = ''RANDOM_EXPLOSION'' \<and> player e = athlete_name row
           \<and> why e = eruption_why row lbls \<and> \<not> trauma e"
proof -
  let ?name = "athlete_name row"
  have n: "?name \<noteq> []" by (simp add: athlete_name_def split: option.splits)
  have rw: "randomWhy ?name (starter row = Some False) (athlete_points row lbls) (athlete_minutes row lbls) avg
        = eruption_why row lbls"
    using assms by (simp add: randomWhy_eruption eruption_why_def)
  have ne: "eruption_why row lbls \<noteq> []" using n by (simp add: eruption_why_def)
  show ?thesis
    using rw ne n
    by (simp add: athlete_events_def Let_def createBaseEntry_fields athlete_points_def athlete_minutes_def)
qed

text \<open>
  Claim C5, amended. For an athlete of the boxscore with at least 25 points in more than 0
  and less than 25 parsed minutes, to whom none of the three earlier explosion rules applies
  (with the record read from the running averages when the loop reaches the athlete), the
  player classifier gives an entry of category \<^verbatim>\<open>RANDOM_EXPLOSION\<close> for the athlete with the
  reason of the scoring in few minutes; and when the game is one the traversal processes, the
  entry is among the candidates collected after its pass.
\<close>

theorem efficient_eruption_emitted:
  assumes "pacers_stat_group s = Some g"
    and "athletes g = pre @ row # post"
    and "lbls = map toUpperCase (labels g)"
    and "avg = lookup_avg (snd (foldl (athlete_step ctx s lbls seasonKey) ([], runningAverages) pre))
                 (avgKey seasonKey (athlete_name row))"
    and "athlete_points row lbls \<ge> 25"
    and "0 < athlete_minutes row lbls" and "athlete_minutes row lbls < 25"
    and "\<not> (starter row = Some False \<and> athlete_points row lbls \<ge> 30)"
    and "\<not> athlete_points row lbls \<ge> 45"
    and "\<not> (athlete_points row lbls \<ge> 35 \<and> preGameAverage avg < 12 \<and> avg_games avg \<ge> 8)"
  shows "(\<exists>e\<in>set (fst (detectPlayerMoments s ctx runningAverages seasonKey)).
            category e = ''RANDOM_EXPLOSION'' \<and> player e = athlete_name row
            \<and> why e = eruption_why row lbls \<and> \<not> trauma e)
         \<and> (processed_game f = Some (s, ctx, seasonKey) \<longrightarrow>
              (\<exists>e\<in>set (snd (process_event (runningAverages, collected) f)).
                 category e = ''RANDOM_EXPLOSION'' \<and> player e = athlete_name row
                 \<and> why e = eruption_why row lbls \<and> \<not> trauma e))"
proof -
  from athlete_events_eruption[of row lbls avg ctx s] assms(5-10)
  obtain e where e: "e \<in> set (athlete_events ctx s lbls row avg)"
    "category e = ''RANDOM_EXPLOSION'' \<and> player e = athlete_name row
           \<and> why e = eruption_why row lbls \<and> \<not> trauma e" by blast
  have "fst (detectPlayerMoments s ctx runningAverages seasonKey)
      = fst (foldl (athlete_step ctx s lbls seasonKey) ([], runningAverages) (pre @ row # post))"
    using assms(1-3) by (simp add: detectPlayerMoments_def)
  then have m: "e \<in> set (fst (detectPlayerMoments s ctx runningAverages seasonKey))"
    using e(1) assms(4) athlete_loop_events[of ctx s lbls seasonKey "[]" runningAverages pre row post]
    by simp
  have "processed_game f = Some (s, ctx, seasonKey) \<Longrightarrow>
        e \<in> set (snd (process_event (runningAverages, collected) f))"
    using m by (simp add: process_event_processed)
  with m e(2) show ?thesis by blast
qed

section \<open>Properties of the running averages\<close>

subsection \<open>Store as a fold of record_game\<close>

lemma athlete_step_store:
  "snd (athlete_step ctx s lbls k (ev, st) row) =
     record_game st (avgKey k (athlete_name row), athlete_points row lbls)"
  by (simp add: athlete_step_def Let_def record_game_def)

lemma athlete_loop_store:
  "snd (foldl (athlete_step ctx s lbls k) (ev, st) rows) =
     foldl record_game st (map (\<lambda>row. (avgKey k (athlete_name row), athlete_points row lbls)) rows)"
proof (induction rows arbitrary: ev st)
  case Nil then show ?case by simp
next
  case (Cons row rows)
  obtain e1 s1 where r: "athlete_step ctx s lbls k (ev, st) row = (e1, s1)"
    by (cases "athlete_step ctx s lbls k (ev, st) row")
  have "s1 = record_game st (avgKey k (athlete_name row), athlete_points row lbls)"
    using athlete_step_store[of ctx s lbls k ev st row] r by simp
  then show ?case using Cons.IH[of e1 s1] r by simp
qed

lemma detectPlayerMoments_store:
  "processed_game f = Some (s, ctx, k) \<Longrightarrow>
   snd (detectPlayerMoments s ctx st k) = foldl record_game st (map key_points (game_rows f))"
  by (simp add: detectPlayerMoments_def game_rows_def athlete_loop_store key_points_def comp_def
        split: option.splits)

lemma process_event_store:
  "fst (process_event state f) = foldl record_game (fst state) (map key_points (game_rows f))"
proof (cases "processed_game f")
  case None
  then show ?thesis by (simp add: process_event_processed game_rows_def)
next
  case (Some t)
  obtain s ctx k where t: "t = (s, ctx, k)" by (cases t)
  with Some show ?thesis
    using detectPlayerMoments_store[of f s ctx k "fst state"]
    by (simp add: process_event_processed)
qed

lemma traverse_loop_store:
  "fst (foldl process_event state fs) =
     foldl record_game (fst state) (map key_points (concat (map game_rows fs)))"
proof (induction fs arbitrary: state)
  case Nil then show ?case by simp
next
  case (Cons f fs)
  show ?case using Cons.IH[of "process_event state f"] by (simp add: process_event_store)
qed

lemma traverse_store:
  "fst (traverse fs) = foldl record_game Map.empty (map key_points (concat (map game_rows fs)))"
  by (simp add: traverse_def traverse_loop_store)

subsection \<open>What the fold holds for one key\<close>

lemma record_game_other: "fst kp \<noteq> key \<Longrightarrow> record_game st kp key = st key"
  by (simp add: record_game_def)

lemma record_game_same:
  "record_game st (key, p) key =
     Some \<lparr>avg_games = avg_games (lookup_avg st key) + 1, avg_points = avg_points (lookup_avg st key) + p\<rparr>"
  by (simp add: record_game_def)

lemma fold_record_game:
  "foldl record_game st kps key =
     (let ps = map snd (filter (\<lambda>kp. fst kp = key) kps)
      in if ps = [] then st key
         else Some \<lparr>avg_games = avg_games (lookup_avg st key) + length ps,
                    avg_points = avg_points (lookup_avg st key) + sum_list ps\<rparr>)"
proof (induction kps arbitrary: st)
  case Nil then show ?case by simp
next
  case (Cons kp kps)
  obtain k p where kp: "kp = (k, p)" by (cases kp)
  show ?case
  proof (cases "k = key")
    case False
    then have "record_game st kp key = st key" "lookup_avg (record_game st kp) key = lookup_avg st key"
      by (simp_all add: kp record_game_other lookup_avg_def)
    with False show ?thesis using Cons.IH[of "record_game st kp"] by (simp add: kp Let_def)
  next
    case True
    let ?st = "record_game st (key, p)"
    have l: "lookup_avg ?st key =
        \<lparr>avg_games = avg_games (lookup_avg st key) + 1, avg_points = avg_points (lookup_avg st key) + p\<rparr>"
      by (simp add: record_game_same lookup_avg_def)
    have s: "?st key = Some \<lparr>avg_games = avg_games (lookup_avg st key) + 1, avg_points = avg_points (lookup_avg st key) + p\<rparr>"
      by (simp add: record_game_same)
    have kp': "kp = (key, p)" using kp True by simp
    show ?thesis using Cons.IH[of ?st]
      by (simp add: kp' Let_def l s add.assoc)
  qed
qed

subsection \<open>Keys identify the season label and the name\<close>

lemma digit_char_not_colon: "d < 10 \<Longrightarrow> digit_char d \<noteq> CHR '':''"
proof
  assume d: "d < 10" and e: "digit_char d = CHR '':''"
  then have "(of_char (digit_char d) :: nat) = of_char CHR '':''" by simp
  then have "(48 + d) mod 256 = (58 :: nat)" by (simp add: digit_char_def)
  with d show False by simp
qed

lemma colon_not_digit_char: "d < 10 \<Longrightarrow> CHR '':'' \<noteq> digit_char d"
  using digit_char_not_colon by metis

lemma string_of_nat_no_colon: "CHR '':'' \<notin> set (string_of_nat n)"
proof (induction n rule: string_of_nat.induct)
  case (1 n)
  show ?case
  proof (cases "n < 10")
    case True
    then show ?thesis by (subst string_of_nat.simps) (simp add: colon_not_digit_char)
  next
    case False
    then have "CHR '':'' \<notin> set (string_of_nat (n div 10))" using 1 by simp
    moreover have "CHR '':'' \<noteq> digit_char (n mod 10)" by (simp add: colon_not_digit_char)
    ultimately show ?thesis using False by (subst string_of_nat.simps) simp
  qed
qed

lemma label_no_colon: "CHR '':'' \<notin> set (seasonLabelFromDate d)"
  by (auto simp: seasonLabelFromDate_def Let_def string_of_int_def padStart2_def
        string_of_nat_no_colon split: option.splits)

lemma takeWhile_no_colon:
  "CHR '':'' \<notin> set k \<Longrightarrow> takeWhile (\<lambda>c. c \<noteq> CHR '':'') (k @ CHR '':'' # n) = k"
  by (induction k) auto

lemma avgKey_inj:
  assumes "CHR '':'' \<notin> set k1" "CHR '':'' \<notin> set k2" "avgKey k1 n1 = avgKey k2 n2"
  shows "k1 = k2 \<and> n1 = n2"
proof -
  from assms(3) have e: "k1 @ CHR '':'' # n1 = k2 @ CHR '':'' # n2" by (simp add: avgKey_def)
  then have "takeWhile (\<lambda>c. c \<noteq> CHR '':'') (k1 @ CHR '':'' # n1)
           = takeWhile (\<lambda>c. c \<noteq> CHR '':'') (k2 @ CHR '':'' # n2)" by simp
  then have "k1 = k2" using assms(1,2) by (simp add: takeWhile_no_colon)
  with e show ?thesis by simp
qed

lemma avgKey_same_season: "avgKey k n1 = avgKey k n2 \<longleftrightarrow> n1 = n2"
  by (simp add: avgKey_def)

lemma processed_game_label:
  "processed_game f = Some (s, ctx, k) \<Longrightarrow> \<exists>d. k = seasonLabelFromDate d"
  by (auto simp: processed_game_def Let_def split: option.splits if_splits)

lemma game_rows_label: "r \<in> set (game_rows f) \<Longrightarrow> CHR '':'' \<notin> set (fst r)"
proof -
  assume r: "r \<in> set (game_rows f)"
  then obtain s ctx k where p: "processed_game f = Some (s, ctx, k)"
    by (cases "processed_game f") (auto simp: game_rows_def)
  with r have "fst r = k" by (auto simp: game_rows_def split: option.splits)
  with processed_game_label[OF p] show ?thesis by (auto simp: label_no_colon)
qed

subsection \<open>Counting games\<close>

lemma filter_key_points:
  assumes "CHR '':'' \<notin> set ssn" "\<forall>r\<in>set rows. CHR '':'' \<notin> set (fst r)"
  shows "map snd (filter (\<lambda>kp. fst kp = avgKey ssn name) (map key_points rows)) =
         map (\<lambda>r. snd (snd r)) (filter (\<lambda>r. fst r = ssn \<and> fst (snd r) = name) rows)"
  using assms(2)
proof (induction rows)
  case Nil then show ?case by simp
next
  case (Cons r rows)
  have "fst (key_points r) = avgKey ssn name \<longleftrightarrow> fst r = ssn \<and> fst (snd r) = name"
    using avgKey_inj[of "fst r" ssn "fst (snd r)" name] assms(1) Cons.prems
    by (auto simp: key_points_def)
  with Cons show ?case by (simp add: key_points_def)
qed

lemma distinct_filter_le1:
  "distinct (map g xs) \<Longrightarrow> length (filter (\<lambda>x. Q x \<and> g x = a) xs) \<le> 1"
proof (induction xs)
  case Nil then show ?case by simp
next
  case (Cons x xs)
  show ?case
  proof (cases "Q x \<and> g x = a")
    case True
    have "g x \<notin> set (map g xs)" using Cons.prems by simp
    then have "\<forall>y\<in>set xs. g y \<noteq> g x" by (metis image_eqI set_map)
    with True have "\<forall>y\<in>set xs. g y \<noteq> a" by simp
    then have "filter (\<lambda>x. Q x \<and> g x = a) xs = []" by (auto simp: filter_empty_conv)
    with True show ?thesis by simp
  next
    case False
    with Cons show ?thesis by auto
  qed
qed

lemma played_in_filter:
  "played_in ssn name f \<longleftrightarrow> filter (\<lambda>r. fst r = ssn \<and> fst (snd r) = name) (game_rows f) \<noteq> []"
  by (force simp: played_in_def filter_empty_conv)

lemma game_count:
  assumes "distinct_names f"
  shows "length (filter (\<lambda>r. fst r = ssn \<and> fst (snd r) = name) (game_rows f)) =
         (if played_in ssn name f then 1 else 0)"
proof -
  let ?l = "filter (\<lambda>r. fst r = ssn \<and> fst (snd r) = name) (game_rows f)"
  have "length ?l \<le> 1"
    using assms distinct_filter_le1[of "\<lambda>r. fst (snd r)" "game_rows f" "\<lambda>r. fst r = ssn" name]
    by (simp add: distinct_names_def)
  moreover have "played_in ssn name f \<longleftrightarrow> length ?l \<noteq> 0"
    by (simp add: played_in_filter)
  ultimately show ?thesis by (cases ?l) auto
qed

lemma points_in_not_played: "\<not> played_in ssn name f \<Longrightarrow> points_in ssn name f = 0"
  by (simp add: played_in_filter points_in_def)

lemma count_games:
  assumes "\<forall>f\<in>set fs. distinct_names f"
  shows "length (filter (\<lambda>r. fst r = ssn \<and> fst (snd r) = name) (concat (map game_rows fs)))
         = length (filter (played_in ssn name) fs)"
  using assms by (induction fs) (simp_all add: game_count)

lemma sum_games:
  "sum_list (map (\<lambda>r. snd (snd r))
       (filter (\<lambda>r. fst r = ssn \<and> fst (snd r) = name) (concat (map game_rows fs))))
   = sum_list (map (points_in ssn name) (filter (played_in ssn name) fs))"
proof (induction fs)
  case Nil then show ?case by simp
next
  case (Cons f fs)
  have "sum_list (map (\<lambda>r. snd (snd r)) (filter (\<lambda>r. fst r = ssn \<and> fst (snd r) = name) (game_rows f)))
        = points_in ssn name f" by (simp add: points_in_def)
  with Cons show ?case by (simp add: points_in_not_played)
qed

lemma store_is_season_record:
  assumes "\<forall>f\<in>set fs. distinct_names f"
  shows "fst (traverse fs) (avgKey (seasonLabelFromDate d) name)
         = season_record (seasonLabelFromDate d) name fs"
proof -
  let ?L = "seasonLabelFromDate d"
  let ?rows = "concat (map game_rows fs)"
  define ps where "ps = map (\<lambda>r. snd (snd r)) (filter (\<lambda>r. fst r = ?L \<and> fst (snd r) = name) ?rows)"
  define gs where "gs = filter (played_in ?L name) fs"
  have lab: "\<forall>r\<in>set ?rows. CHR '':'' \<notin> set (fst r)" by (auto simp: game_rows_label)
  have ps0: "map snd (filter (\<lambda>kp. fst kp = avgKey ?L name) (map key_points ?rows)) = ps"
    unfolding ps_def using filter_key_points[OF label_no_colon lab] .
  have "fst (traverse fs) (avgKey ?L name) =
      (let qs = map snd (filter (\<lambda>kp. fst kp = avgKey ?L name) (map key_points ?rows))
       in if qs = [] then Map.empty (avgKey ?L name)
          else Some \<lparr>avg_games = avg_games (lookup_avg Map.empty (avgKey ?L name)) + length qs,
                     avg_points = avg_points (lookup_avg Map.empty (avgKey ?L name)) + sum_list qs\<rparr>)"
    by (simp only: traverse_store fold_record_game)
  then have store: "fst (traverse fs) (avgKey ?L name) =
      (if ps = [] then None else Some \<lparr>avg_games = length ps, avg_points = sum_list ps\<rparr>)"
    by (simp only: ps0 Let_def) (simp add: lookup_avg_def)
  have len: "length ps = length gs"
    unfolding ps_def gs_def using count_games[OF assms] by simp
  have sum: "sum_list ps = sum_list (map (points_in ?L name) gs)"
    unfolding ps_def gs_def using sum_games .
  have emp: "ps = [] \<longleftrightarrow> gs = []"
    using len by (metis length_0_conv)
  have "season_record ?L name fs =
      (if gs = [] then None
       else Some \<lparr>avg_games = length gs, avg_points = sum_list (map (points_in ?L name) gs)\<rparr>)"
    by (simp only: season_record_def Let_def gs_def)
  with store len sum emp show ?thesis by (cases "gs = []") simp_all
qed

subsection \<open>The record a row reads\<close>

lemma athlete_loop_reads:
  assumes "distinct (map athlete_name rows)"
    and "\<forall>row\<in>set rows. lookup_avg st' (avgKey k (athlete_name row)) = lookup_avg st (avgKey k (athlete_name row))"
  shows "fst (foldl (athlete_step ctx s lbls k) (ev, st') rows) =
         ev @ concat (map (\<lambda>row. athlete_events ctx s lbls row
                                  (lookup_avg st (avgKey k (athlete_name row)))) rows)"
  using assms
proof (induction rows arbitrary: ev st')
  case Nil then show ?case by simp
next
  case (Cons row rows)
  let ?key = "avgKey k (athlete_name row)"
  let ?st = "record_game st' (?key, athlete_points row lbls)"
  have step: "athlete_step ctx s lbls k (ev, st') row =
      (ev @ athlete_events ctx s lbls row (lookup_avg st ?key), ?st)"
    using Cons.prems(2) by (simp add: athlete_step_def Let_def record_game_def)
  have "\<forall>r\<in>set rows. lookup_avg ?st (avgKey k (athlete_name r)) = lookup_avg st (avgKey k (athlete_name r))"
  proof
    fix r assume r: "r \<in> set rows"
    then have "athlete_name r \<in> set (map athlete_name rows)" by simp
    moreover have "athlete_name row \<notin> set (map athlete_name rows)" using Cons.prems(1) by simp
    ultimately have "athlete_name r \<noteq> athlete_name row" by metis
    then have "avgKey k (athlete_name r) \<noteq> ?key" by (simp add: avgKey_same_season)
    then have "lookup_avg ?st (avgKey k (athlete_name r)) = lookup_avg st' (avgKey k (athlete_name r))"
      by (simp add: lookup_avg_def record_game_def)
    with Cons.prems(2) r show "lookup_avg ?st (avgKey k (athlete_name r)) = lookup_avg st (avgKey k (athlete_name r))"
      by simp
  qed
  with Cons.IH[of ?st "ev @ athlete_events ctx s lbls row (lookup_avg st ?key)"] Cons.prems(1)
  show ?case by (simp add: step)
qed

lemma detectPlayerMoments_reads:
  assumes "pacers_stat_group s = Some g" "distinct (map athlete_name (athletes g))"
  shows "fst (detectPlayerMoments s ctx st k) =
         concat (map (\<lambda>row. athlete_events ctx s (map toUpperCase (labels g)) row
                                (lookup_avg st (avgKey k (athlete_name row)))) (athletes g))"
  using athlete_loop_reads[OF assms(2), of st k st ctx s "map toUpperCase (labels g)" "[]"] assms(1)
  by (simp add: detectPlayerMoments_def)

lemma distinct_names_rows:
  "processed_game f = Some (s, ctx, k) \<Longrightarrow> pacers_stat_group s = Some g \<Longrightarrow> distinct_names f
   \<Longrightarrow> distinct (map athlete_name (athletes g))"
  by (simp add: distinct_names_def game_rows_def comp_def)

lemma lookup_record_or_zero: "lookup_avg st key = record_or_zero (st key)"
  by (simp add: lookup_avg_def record_or_zero_def)

text \<open>
  Claim C1, amended. Let no processed game of the sequence have two athlete rows with the same
  player name. Then after any prefix of the sequence the running averages hold, for a season
  label and a player, the count of the games of the prefix in which the player has a row and
  the sum of the points of these games (and nothing when there is no such game); the player
  classifier, run on the next game, gives for every athlete the events of the record of the
  prior games, read before the game is written; and the average of that record is its points
  divided by its games, 0 when there is no prior game.
\<close>

theorem running_average_prefix:
  assumes "\<forall>f\<in>set fetched. distinct_names f"
  shows "fst (traverse (take n fetched)) (avgKey (seasonLabelFromDate d) name)
           = season_record (seasonLabelFromDate d) name (take n fetched)
     \<and> (n < length fetched \<and> processed_game (fetched ! n) = Some (s, ctx, k)
          \<and> pacers_stat_group s = Some g \<longrightarrow>
        fst (detectPlayerMoments s ctx (fst (traverse (take n fetched))) k) =
          concat (map (\<lambda>row. athlete_events ctx s (map toUpperCase (labels g)) row
                                 (record_or_zero (season_record k (athlete_name row) (take n fetched))))
                    (athletes g)))
     \<and> preGameAverage (record_or_zero None) = 0
     \<and> (\<forall>a. avg_games a > 0 \<longrightarrow> preGameAverage a = avg_points a / of_nat (avg_games a))"
proof (intro conjI impI allI)
  have pre: "\<forall>f\<in>set (take n fetched). distinct_names f"
    using assms by (meson in_set_takeD)
  show "fst (traverse (take n fetched)) (avgKey (seasonLabelFromDate d) name)
           = season_record (seasonLabelFromDate d) name (take n fetched)"
    using store_is_season_record[OF pre] .
  show "preGameAverage (record_or_zero None) = 0"
    by (simp add: preGameAverage_def record_or_zero_def)
  {
    assume h: "n < length fetched \<and> processed_game (fetched ! n) = Some (s, ctx, k)
          \<and> pacers_stat_group s = Some g"
    then have "distinct_names (fetched ! n)" using assms by simp
    with h have dn: "distinct (map athlete_name (athletes g))"
      using distinct_names_rows by blast
    from h obtain d' where k: "k = seasonLabelFromDate d'" using processed_game_label by blast
    have "\<And>row. lookup_avg (fst (traverse (take n fetched))) (avgKey k (athlete_name row))
        = record_or_zero (season_record k (athlete_name row) (take n fetched))"
      using store_is_season_record[OF pre] by (simp add: k lookup_record_or_zero)
    then show "fst (detectPlayerMoments s ctx (fst (traverse (take n fetched))) k) =
          concat (map (\<lambda>row. athlete_events ctx s (map toUpperCase (labels g)) row
                                 (record_or_zero (season_record k (athlete_name row) (take n fetched))))
                    (athletes g))"
      using detectPlayerMoments_reads[of s g ctx "fst (traverse (take n fetched))" k] h dn
      by simp
  }
next
  fix a :: avg_record assume "avg_games a > 0"
  then show "preGameAverage a = avg_points a / of_nat (avg_games a)"
    by (simp add: preGameAverage_def)
qed

section \<open>Instances\<close>

text \<open>
  Claim C1 as stated fails on a boxscore with two athletes of the same name (here two rows
  without a display name, both \<^verbatim>\<open>Unknown\<close>): after the one game of the prefix the record of
  the player counts two games.
\<close>

theorem running_average_counterexample:
  "processed_game (Some dup_game) = Some (dup_game, ex_context True ''Final'' None, ''2023-24'')
   \<and> map (\<lambda>r. fst (snd r)) (game_rows (Some dup_game)) = [''Unknown'', ''Unknown'']
   \<and> length (filter (played_in ''2023-24'' ''Unknown'') [Some dup_game]) = 1
   \<and> fst (traverse [Some dup_game]) (avgKey ''2023-24'' ''Unknown'')
       = Some \<lparr>avg_games = 2, avg_points = 30\<rparr>
   \<and> lookup_avg (snd (athlete_step (ex_context True ''Final'' None) dup_game [''PTS''] ''2023-24''
                         ([], Map.empty) (ex_row None [''10''])))
         (avgKey ''2023-24'' (athlete_name (ex_row None [''20'']))) = \<lparr>avg_games = 1, avg_points = 10\<rparr>"
proof -
  have p: "processed_game (Some dup_game) = Some (dup_game, ex_context True ''Final'' None, ''2023-24'')"
    by code_simp
  have r: "game_rows (Some dup_game) = [(''2023-24'', ''Unknown'', 10), (''2023-24'', ''Unknown'', 20)]"
    by code_simp
  have g: "length (filter (played_in ''2023-24'' ''Unknown'') [Some dup_game]) = 1"
    by (simp add: played_in_def r)
  have t: "fst (traverse [Some dup_game]) (avgKey ''2023-24'' ''Unknown'') = Some \<lparr>avg_games = 2, avg_points = 30\<rparr>"
    by (simp add: traverse_store r key_points_def record_game_def lookup_avg_def)
  have n: "athlete_name (ex_row None [''20'']) = ''Unknown''" "athlete_name (ex_row None [''10'']) = ''Unknown''"
    by (simp_all add: athlete_name_def ex_row_def)
  have q: "athlete_points (ex_row None [''10'']) [''PTS''] = 10" by code_simp
  have a: "lookup_avg (snd (athlete_step (ex_context True ''Final'' None) dup_game [''PTS''] ''2023-24''
                         ([], Map.empty) (ex_row None [''10''])))
         (avgKey ''2023-24'' (athlete_name (ex_row None [''20'']))) = \<lparr>avg_games = 1, avg_points = 10\<rparr>"
    by (simp add: athlete_step_store record_game_def lookup_avg_def n q)
  from p r g t a show ?thesis by simp
qed

text \<open>An instance of the amended claim C1.\<close>

theorem running_average_prefix_witness:
  "fst (traverse (take 2 [Some solo_game, None])) (avgKey (seasonLabelFromDate ''2024-05-27'') ''A B'')
     = Some \<lparr>avg_games = 1, avg_points = 10\<rparr>"
proof -
  have r: "game_rows (Some solo_game) = [(''2023-24'', ''A B'', 10)]" by code_simp
  have n: "game_rows None = []" by (simp add: game_rows_def processed_game_def)
  have l: "seasonLabelFromDate ''2024-05-27'' = ''2023-24''" by code_simp
  have d: "\<forall>f\<in>set [Some solo_game, None]. distinct_names f"
    by (simp add: distinct_names_def r n)
  have s: "season_record ''2023-24'' ''A B'' [Some solo_game, None] = Some \<lparr>avg_games = 1, avg_points = 10\<rparr>"
    by (simp add: season_record_def played_in_def points_in_def r n)
  from running_average_prefix[OF d, of 2 "''2024-05-27''" "''A B''"] s l
  show ?thesis by simp
qed


text \<open>An instance of claim C4.\<close>

theorem curator_idempotent_witness:
  "finalEntries [ex_entry ''2024-03-05'' ''98 pts'' False, ex_entry ''2024-01-02'' ''98 pts'' True]
     = [ex_entry ''2024-03-05'' ''98 pts'' False, ex_entry ''2024-01-02'' ''98 pts'' True]"
proof -
  let ?c = "[ex_entry ''2024-03-05'' ''98 pts'' False, ex_entry ''2024-01-02'' ''98 pts'' True]"
  have k: "distinct (map entry_key ?c)" by code_simp
  have s: "date_descending ?c" by code_simp
  from curator_idempotent[of ?c] k s show ?thesis by simp
qed

lemma sorted_wrt_all: "(\<forall>a\<in>set xs. \<forall>b\<in>set xs. R a b) \<Longrightarrow> sorted_wrt R xs"
  by (induction xs) auto

lemma crowd_member_inj: "crowd_member i = crowd_member j \<Longrightarrow> i = j"
proof -
  assume "crowd_member i = crowd_member j"
  then have "why (crowd_member i) = why (crowd_member j)" by simp
  then have "replicate i CHR ''x'' = replicate j CHR ''x''" by (simp add: crowd_member_def)
  then have "length (replicate i CHR ''x'') = length (replicate j CHR ''x'')" by simp
  then show "i = j" by simp
qed

lemma crowd_key_inj: "entry_key (crowd_member i) = entry_key (crowd_member j) \<Longrightarrow> i = j"
proof -
  assume "entry_key (crowd_member i) = entry_key (crowd_member j)"
  then have "replicate i CHR ''x'' = replicate j CHR ''x''"
    by (simp add: entry_key_def crowd_member_def ex_entry_def)
  then have "length (replicate i CHR ''x'') = length (replicate j CHR ''x'')" by simp
  then show "i = j" by simp
qed

lemma crowd_distinct: "distinct (map entry_key (crowd n))"
proof -
  have "inj_on (\<lambda>i. entry_key (crowd_member i)) (set [0..<n])"
    by (rule inj_onI) (rule crowd_key_inj)
  then show ?thesis by (simp add: crowd_def distinct_map comp_def inj_on_def)
qed

lemma crowd_member_points: "stat_line_points (crowd_member i) = 98"
proof -
  have "stat_line_points (crowd_member i)
      = stat_line_points (ex_entry ''2024-01-02'' ''98 pts, opp 101 pts'' True)"
    by (simp add: stat_line_points_def crowd_member_def)
  also have "\<dots> = 98" by code_simp
  finally show ?thesis .
qed

lemma crowd_member_score: "entryQualityScore (crowd_member i) = entryQualityScore (crowd_member j)"
  by (simp add: entryQualityScore_def crowd_member_points) (simp add: crowd_member_def)

lemma crowd_member_date: "date (crowd_member i) = ''2024-01-02''"
  by (simp add: crowd_member_def ex_entry_def)

lemma crowd_sorted_date: "sorted_wrt (\<lambda>a b. by_date_desc a b \<le> 0) (crowd n)"
  by (rule sorted_wrt_all) (auto simp: crowd_def by_date_desc_le crowd_member_date)

lemma crowd_sorted_quality: "sorted_wrt (\<lambda>a b. by_quality a b \<le> 0) (crowd n)"
  by (rule sorted_wrt_all) (auto simp: crowd_def by_quality_le crowd_member_date crowd_member_score)

lemma crowd_final: "finalEntries (crowd 401) = crowd 400"
proof -
  have d: "dedupeEntries (crowd 401) = crowd 401" by (simp add: dedupeEntries_id crowd_distinct)
  have s: "\<And>n. js_sort by_date_desc (crowd n) = crowd n" "\<And>n. js_sort by_quality (crowd n) = crowd n"
    by (simp_all add: js_sort_sorted_id crowd_sorted_date crowd_sorted_quality)
  have t: "take 400 (crowd 401) = crowd 400" by (simp add: crowd_def take_map)
  have l: "length (crowd 401) = 401" by (simp add: crowd_def)
  show ?thesis by (simp add: finalEntries_def Let_def CORPUS_CAP_def d s t l)
qed

text \<open>An instance of claim C10, with 401 trauma candidates so that the cap drops one.\<close>

theorem trauma_outranks_plain_witness:
  "entryQualityScore (ex_entry ''2024-01-02'' ''60 pts, 4 reb, 5 ast'' False)
     < entryQualityScore (ex_entry ''2024-01-02'' ''98 pts, opp 101 pts'' True)
   \<and> crowd_member 400 \<in> set (dedupeEntries (crowd 401))
   \<and> crowd_member 400 \<notin> set (finalEntries (crowd 401))
   \<and> crowd_member 0 \<in> set (finalEntries (crowd 401))
   \<and> trauma (crowd_member 0)"
proof -
  let ?a = "ex_entry ''2024-01-02'' ''98 pts, opp 101 pts'' True"
  let ?b = "ex_entry ''2024-01-02'' ''60 pts, 4 reb, 5 ast'' False"
  have h1: "trauma ?a \<and> \<not> trauma ?b \<and> 0 \<le> stat_line_points ?a \<and> 0 \<le> stat_line_points ?b"
    by code_simp
  have pts: "\<forall>e\<in>set (crowd 401). trauma e \<longrightarrow> 0 \<le> stat_line_points e"
    by (auto simp: crowd_def crowd_member_points)
  have t1: "crowd_member 400 \<in> set (dedupeEntries (crowd 401))"
    by (simp add: dedupeEntries_id crowd_distinct) (simp add: crowd_def)
  have t2: "trauma (crowd_member 400)" by (simp add: crowd_member_def ex_entry_def)
  have t3: "crowd_member 400 \<notin> set (finalEntries (crowd 401))"
  proof
    assume "crowd_member 400 \<in> set (finalEntries (crowd 401))"
    then have "crowd_member 400 \<in> set (crowd 400)" by (simp only: crowd_final)
    then obtain i where "i < 400" "crowd_member 400 = crowd_member i"
      by (auto simp: crowd_def)
    with crowd_member_inj[of 400 i] show False by simp
  qed
  have n: "crowd_member 0 \<in> set (finalEntries (crowd 401))"
    by (simp add: crowd_final) (simp add: crowd_def)
  from trauma_outranks_plain[of ?a ?b "crowd 401" "crowd_member 400" "crowd_member 0"]
    h1 pts t1 t2 t3 n
  show ?thesis by blast
qed

text \<open>
  Claim C3 as stated fails on a playoff loss in a Game 7 whose series summary says that the
  opponent wins the series: the one entry has the reason of the elimination, not of Game 7.
\<close>

theorem trauma_single_cause_counterexample:
  "collectPacersTeamContext game7_elimination
     = Some (ex_context False ''FINAL - GAME 7'' (Some ''BOS wins series 4-3''))
   \<and> \<not> ctx_won (ex_context False ''FINAL - GAME 7'' (Some ''BOS wins series 4-3''))
   \<and> ctx_playoffs (ex_context False ''FINAL - GAME 7'' (Some ''BOS wins series 4-3''))
   \<and> str_includes (or_empty (status_detail (ctx_competition
         (ex_context False ''FINAL - GAME 7'' (Some ''BOS wins series 4-3''))))) ''GAME 7''
   \<and> map why (detectTrauma game7_elimination
         (ex_context False ''FINAL - GAME 7'' (Some ''BOS wins series 4-3'')))
       = [''Playoff elimination confirmed. Remote tossed.'']"
  by code_simp

text \<open>An instance of the amended claim C3: Game 7 wins over the blown lead.\<close>

theorem trauma_single_cause_witness:
  "blown_lead_rule game7_blown_lead (ex_context False ''FINAL - GAME 7'' None)
   \<and> map why (detectTrauma game7_blown_lead (ex_context False ''FINAL - GAME 7'' None))
       = [''Game 7 loss. Historic pain tier unlocked.'']"
proof -
  let ?cx = "ex_context False ''FINAL - GAME 7'' None"
  have b: "blown_lead_rule game7_blown_lead ?cx" by code_simp
  have h: "\<not> ctx_won ?cx \<and> ctx_playoffs ?cx
        \<and> str_includes (or_empty (status_detail (ctx_competition ?cx))) ''GAME 7''
        \<and> \<not> elimination_rule ?cx" by code_simp
  from trauma_single_cause[of ?cx game7_blown_lead] h
  obtain e where "detectTrauma game7_blown_lead ?cx = [e] \<and> why e = game7_reason" by blast
  with b show ?thesis by (simp add: game7_reason_def)
qed

text \<open>
  Claim C5 as stated fails for an athlete whose minutes are missing from the boxscore and
  parse to 0: 27 points in under 25 minutes, no earlier rule applies, and no entry.
\<close>

theorem efficient_eruption_counterexample:
  "pacers_stat_group no_minutes_game
     = Some \<lparr>labels = [''PTS''], athletes = [ex_row (Some ''A B'') [''27'']]\<rparr>
   \<and> athlete_points (ex_row (Some ''A B'') [''27'']) [''PTS''] = 27
   \<and> athlete_minutes (ex_row (Some ''A B'') [''27'']) [''PTS''] = 0
   \<and> starter (ex_row (Some ''A B'') [''27'']) = Some True
   \<and> fst (detectPlayerMoments no_minutes_game (ex_context True ''Final'' None) Map.empty ''2023-24'') = []"
  by code_simp

text \<open>An instance of the amended claim C5.\<close>

theorem efficient_eruption_emitted_witness:
  "\<exists>e\<in>set (fst (detectPlayerMoments quick_game (ex_context True ''Final'' None) Map.empty ''2023-24'')).
     category e = ''RANDOM_EXPLOSION'' \<and> player e = ''A B''
     \<and> why e = ''A B scored 26 in 20.5 minutes.''"
proof -
  let ?row = "ex_row (Some ''A B'') [''26'', ''20:30'']"
  let ?g = "\<lparr>labels = [''PTS'', ''MIN''], athletes = [?row]\<rparr>"
  let ?lbls = "[''PTS'', ''MIN'']"
  let ?avg = "\<lparr>avg_games = 0, avg_points = 0\<rparr>"
  have g: "pacers_stat_group quick_game = Some ?g" by code_simp
  have a: "athletes ?g = [] @ ?row # []" by simp
  have l: "?lbls = map toUpperCase (labels ?g)" by code_simp
  have v: "?avg = lookup_avg (snd (foldl (athlete_step (ex_context True ''Final'' None) quick_game ?lbls ''2023-24'')
                 ([], Map.empty) [])) (avgKey ''2023-24'' (athlete_name ?row))"
    by (simp add: lookup_avg_def)
  have p: "athlete_points ?row ?lbls = 26" by code_simp
  have m: "athlete_minutes ?row ?lbls = 41 / 2" by code_simp
  have s: "starter ?row = Some True" by (simp add: ex_row_def)
  have n: "athlete_name ?row = ''A B''" by code_simp
  have w: "eruption_why ?row ?lbls = ''A B scored 26 in 20.5 minutes.''" by code_simp
  have "\<exists>e\<in>set (fst (detectPlayerMoments quick_game (ex_context True ''Final'' None) Map.empty ''2023-24'')).
           category e = ''RANDOM_EXPLOSION'' \<and> player e = athlete_name ?row
           \<and> why e = eruption_why ?row ?lbls \<and> \<not> trauma e"
    by (rule conjunct1, rule efficient_eruption_emitted[OF g a l v])
       (simp_all add: p m s preGameAverage_def)
  then show ?thesis by (auto simp: n w)
qed

text \<open>
  Claim C6 as stated fails for a win with a field-goal percentage of 0: no entry.
\<close>

theorem bad_shooting_win_counterexample:
  "ctx_won (ex_context True ''Final'' None)
   \<and> fgPct (parseTeamStats cold_win (ex_context True ''Final'' None)) = 0
   \<and> detectTeamWeirdness cold_win (ex_context True ''Final'' None) = []"
  by code_simp

text \<open>An instance of the amended claim C6.\<close>

theorem bad_shooting_win_emitted_witness:
  "createBaseEntry (ex_context True ''Final'' None) chilly_win team_event
       (team_stat_line (ex_context True ''Final'' None)) ''TEAM_WEIRDNESS''
       ''Pacers won while shooting 33.3%. Basketball is fake.''
     \<in> set (detectTeamWeirdness chilly_win (ex_context True ''Final'' None))"
proof -
  let ?cx = "ex_context True ''Final'' None"
  have f: "fgPct (parseTeamStats chilly_win ?cx) = 333 / 10" by code_simp
  have w: "ctx_won ?cx" by (simp add: ex_context_def)
  have t: "toFixed1 (333 / 10) = ''33.3''" by code_simp
  from bad_shooting_win_emitted[of ?cx chilly_win] f w t show ?thesis
    by (simp add: bad_shooting_entry_def)
qed

text \<open>An instance of claim C7: a summary without an opponent.\<close>

theorem unresolved_context_skipped_witness:
  "collectPacersTeamContext lonely_game = None
   \<and> traverse ([] @ Some lonely_game # []) = traverse ([] @ [])"
proof -
  have "\<not> (\<exists>c\<in>set (competitors (first_competition lonely_game)). competitor_id c \<noteq> PACERS_TEAM_ID)"
    by (simp add: lonely_game_def first_competition_def competitor_id_def ex_competitor_def
          ex_team_def or_empty_def PACERS_TEAM_ID_def)
  then have "\<not> (\<exists>c\<in>set (competitors (first_competition lonely_game)). competitor_id c = PACERS_TEAM_ID)
     \<or> \<not> (\<exists>c\<in>set (competitors (first_competition lonely_game)). competitor_id c \<noteq> PACERS_TEAM_ID)"
    by blast
  from unresolved_context_skipped[OF this, of Map.empty "[]" "[]" "[]"] show ?thesis by blast
qed

text \<open>An instance of claim C9: the corpus of one playoff loss.\<close>

theorem final_corpus_shape_witness:
  "main [Some game7_elimination]
     = [traumaify (trauma_base game7_elimination (ex_context False ''FINAL - GAME 7'' (Some ''BOS wins series 4-3'')))
          elimination_reason]
   \<and> trauma (traumaify (trauma_base game7_elimination (ex_context False ''FINAL - GAME 7'' (Some ''BOS wins series 4-3'')))
          elimination_reason)
   \<and> category (traumaify (trauma_base game7_elimination (ex_context False ''FINAL - GAME 7'' (Some ''BOS wins series 4-3'')))
          elimination_reason) = ''TRAUMA''"
proof -
  let ?cx = "ex_context False ''FINAL - GAME 7'' (Some ''BOS wins series 4-3'')"
  let ?e = "traumaify (trauma_base game7_elimination ?cx) elimination_reason"
  have p: "processed_game (Some game7_elimination) = Some (game7_elimination, ?cx, ''2023-24'')"
    by code_simp
  have a: "fst (detectPlayerMoments game7_elimination ?cx Map.empty ''2023-24'') = []" by code_simp
  have b: "detectTeamWeirdness game7_elimination ?cx = []" by code_simp
  have r: "first_trauma_reason game7_elimination ?cx = Some elimination_reason" by code_simp
  have w: "\<not> ctx_won ?cx" by (simp add: ex_context_def)
  have c: "detectTrauma game7_elimination ?cx = [?e]" by (simp add: detectTrauma_first r w)
  have t: "snd (traverse [Some game7_elimination]) = [?e]"
    by (simp add: traverse_def process_event_processed p a b c)
  have f: "finalEntries [?e] = [?e]"
    by (rule finalEntries_fixed) (simp_all add: date_descending_def)
  have m: "main [Some game7_elimination] = [?e]" by (simp add: main_def t f)
  from final_corpus_shape[of "[Some game7_elimination]"] m show ?thesis by simp
qed

end
